theory Spec2Isabelle
  imports
    Complex_Main
    "HOL-Library.Word"
    "HOL-Library.List_Lexorder"
    "HOL-Library.Sublist"
    "HOL-Library.Multiset"
begin

section \<open>Values of the language\<close>

text \<open>
  A JavaScript string is a sequence of 16-bit code units. Equality, \<open>includes\<close>,
  \<open>startsWith\<close> and the relational operators all work on code units; \<open><\<close> on two
  strings is the lexicographic order of the code units, which is the order
  \<^theory_text>\<open>HOL-Library.List_Lexorder\<close> puts on lists. A JavaScript number is modelled
  as a real (the repository does no arithmetic on numbers; it copies and compares them).
\<close>

type_synonym jsstring = "16 word list"

definition ascii :: "string \<Rightarrow> jsstring" where
  \<comment> \<open>the code units of a string literal written with ASCII characters\<close>
  "ascii s = map of_char s"

definition startsWith :: "jsstring \<Rightarrow> jsstring \<Rightarrow> bool" where
  \<comment> \<open>\<open>s.startsWith(t)\<close>\<close>
  "startsWith s t = prefix t s"

definition includes_js :: "jsstring \<Rightarrow> jsstring \<Rightarrow> bool" where
  \<comment> \<open>\<open>s.includes(t)\<close>: \<open>t\<close> occurs in \<open>s\<close> as a contiguous run of code units\<close>
  "includes_js s t = sublist t s"

section \<open>Data model (src/types/products.ts)\<close>

record ProductVariant =
  variant_id :: "jsstring option"  \<comment> \<open>\<open>id?: string\<close>\<close>
  name :: jsstring
  stock :: real
  price :: real

record ProductFormData =
  productName :: jsstring
  productDescription :: jsstring
  productTags :: jsstring
  productImages :: "jsstring list"
  inventoryNumber :: jsstring
  inventoryQuantity :: real
  exchangeRate :: real
  costPrice :: real
  productPrice :: real
  variants :: "ProductVariant list option"  \<comment> \<open>\<open>variants?: ProductVariant[]\<close>\<close>

record Product = ProductFormData +
  id' :: jsstring
  created_at :: jsstring
  updated_at :: jsstring

text \<open>
  An object handed to \<open>from("variants").insert\<close>. The two writers build it
  differently: \<open>createProducts\<close> spreads the variant and adds \<open>product_id\<close>,
  \<open>updateProduct\<close> lists four properties. A property that the object does not
  have is \<open>None\<close>.
\<close>

record VariantRow =
  row_id :: "jsstring option"
  row_product_id :: jsstring
  row_name :: jsstring
  row_stock :: real
  row_price :: real

section \<open>The remote data store (lib/supabase) as an injected client\<close>

text \<open>
  The client library is not part of the repository. Each request the repository
  builds is one field of the record below: a function from the store's state to the
  response \<open>{data, error}\<close> and the store's next state. A response with an error
  carries no data (\<open>Inl\<close>); a write that returns no data answers \<open>None\<close> on success.
  Nothing is assumed about the store.
\<close>

record pg_error =
  message :: jsstring

record 's supabase =
  products_insert :: "ProductFormData \<Rightarrow> 's \<Rightarrow> (pg_error + Product) \<times> 's"
    \<comment> \<open>\<open>from("products").insert(d).select().single()\<close>\<close>
  products_update :: "jsstring \<Rightarrow> ProductFormData \<Rightarrow> 's \<Rightarrow> (pg_error + Product) \<times> 's"
    \<comment> \<open>\<open>from("products").update(f).eq("id", id).select().single()\<close>\<close>
  products_select_variants :: "jsstring \<Rightarrow> 's \<Rightarrow> (pg_error + Product) \<times> 's"
    \<comment> \<open>\<open>from("products").select("*,variants(*)").eq("id", id).single()\<close>\<close>
  products_select_images :: "jsstring \<Rightarrow> 's \<Rightarrow> (pg_error + jsstring list option) \<times> 's"
    \<comment> \<open>\<open>from("products").select("productImages").eq("id", id).single()\<close>; the column may be null\<close>
  products_delete :: "jsstring \<Rightarrow> 's \<Rightarrow> pg_error option \<times> 's"
    \<comment> \<open>\<open>from("products").delete().eq("id", id)\<close>\<close>
  variants_delete :: "jsstring \<Rightarrow> 's \<Rightarrow> pg_error option \<times> 's"
    \<comment> \<open>\<open>from("variants").delete().eq("product_id", id)\<close>\<close>
  variants_insert :: "VariantRow list \<Rightarrow> 's \<Rightarrow> pg_error option \<times> 's"
    \<comment> \<open>\<open>from("variants").insert(rows)\<close>\<close>
  storage_remove :: "jsstring list \<Rightarrow> 's \<Rightarrow> pg_error option \<times> 's"
    \<comment> \<open>\<open>storage.from("productImage").remove(paths)\<close>\<close>

datatype request =
    ProductsInsert ProductFormData
  | ProductsUpdate jsstring ProductFormData
  | ProductsSelectVariants jsstring
  | ProductsSelectImages jsstring
  | ProductsDelete jsstring
  | VariantsDelete jsstring
  | VariantsInsert "VariantRow list"
  | StorageRemove "jsstring list"

text \<open>
  The notifications shown to the user (\<open>toast.error\<close>, \<open>toast.warning\<close>). The
  messages are fixed texts of the source, named here by what they say.
\<close>

datatype toast_text =
    UpdateProductFailed
  | UpdateVariantsFailed
  | ProductDeletedSomeImagesNot

datatype toast = ToastError toast_text | ToastWarning toast_text

text \<open>
  What a repository function runs in: the store, the requests issued so far (oldest
  first) and the notifications shown so far. \<open>console\<close> output is not modelled.
\<close>

record 's world =
  remote :: 's
  calls :: "request list"
  toasts :: "toast list"

definition await :: "request \<Rightarrow> ('s \<Rightarrow> 'r \<times> 's) \<Rightarrow> 's world \<Rightarrow> 'r \<times> 's world" where
  \<comment> \<open>issue one request and wait for its response\<close>
  "await rq f w =
     (case f (remote w) of
        (r, s) \<Rightarrow> (r, w\<lparr>remote := s, calls := calls w @ [rq]\<rparr>))"

definition notify :: "toast \<Rightarrow> 's world \<Rightarrow> 's world" where
  "notify t w = w\<lparr>toasts := toasts w @ [t]\<rparr>"

text \<open>
  The state in which the store is left once it has served a request, and once it has
  served a list of requests in order. The theorems below use it to say that the
  store is changed by the requests issued, by all of them and by nothing else.
\<close>

fun perform :: "'s supabase \<Rightarrow> request \<Rightarrow> 's \<Rightarrow> 's" where
  "perform sb (ProductsInsert d) s = snd (products_insert sb d s)"
| "perform sb (ProductsUpdate pid f) s = snd (products_update sb pid f s)"
| "perform sb (ProductsSelectVariants pid) s = snd (products_select_variants sb pid s)"
| "perform sb (ProductsSelectImages pid) s = snd (products_select_images sb pid s)"
| "perform sb (ProductsDelete pid) s = snd (products_delete sb pid s)"
| "perform sb (VariantsDelete pid) s = snd (variants_delete sb pid s)"
| "perform sb (VariantsInsert rows) s = snd (variants_insert sb rows s)"
| "perform sb (StorageRemove paths) s = snd (storage_remove sb paths s)"

definition served :: "'s supabase \<Rightarrow> request list \<Rightarrow> 's \<Rightarrow> 's" where
  "served sb rqs s = foldl (\<lambda>s' rq. perform sb rq s') s rqs"

text \<open>
  What a repository function throws: the store's error object itself, or a new
  \<open>Error\<close> made from its message (\<open>deleteProduct\<close>).
\<close>

datatype thrown = ThrownPg pg_error | ThrownError jsstring

section \<open>Product repository (services/apiProducts.ts)\<close>

definition variantsWithProductId :: "Product \<Rightarrow> ProductVariant list \<Rightarrow> VariantRow list" where
  \<comment> \<open>\<open>variants.map((v) => ({ ...v, product_id: product.id }))\<close>\<close>
  "variantsWithProductId product vs =
     map (\<lambda>v. \<lparr>row_id = variant_id v, row_product_id = id' product,
               row_name = name v, row_stock = stock v, row_price = price v\<rparr>) vs"

definition createProducts ::
  "'s supabase \<Rightarrow> ProductFormData \<Rightarrow> ProductVariant list \<Rightarrow> 's world
     \<Rightarrow> (thrown + Product) \<times> 's world" where
  "createProducts sb productData vs w =
     (case await (ProductsInsert productData) (products_insert sb productData) w of
        (Inl productError, w1) \<Rightarrow> (Inl (ThrownPg productError), w1)
      | (Inr product, w1) \<Rightarrow>
          if length vs > 0 then
            (case await (VariantsInsert (variantsWithProductId product vs))
                        (variants_insert sb (variantsWithProductId product vs)) w1 of
               (Some variantsError, w2) \<Rightarrow> (Inl (ThrownPg variantsError), w2)
             | (None, w2) \<Rightarrow> (Inr product, w2))
          else (Inr product, w1))"

definition productFields :: "ProductFormData \<Rightarrow> ProductFormData" where
  \<comment> \<open>\<open>const { variants, ...productFields } = productData\<close>: every property but \<open>variants\<close>\<close>
  "productFields productData = productData\<lparr>variants := None\<rparr>"

definition variantsToInsert :: "jsstring \<Rightarrow> ProductVariant list \<Rightarrow> VariantRow list" where
  \<comment> \<open>\<open>variants.map((variant) => ({ product_id: id, name: ..., stock: ..., price: ... }))\<close>\<close>
  "variantsToInsert pid vs =
     map (\<lambda>variant. \<lparr>row_id = None, row_product_id = pid,
                     row_name = name variant, row_stock = stock variant,
                     row_price = price variant\<rparr>) vs"

definition updateProduct ::
  "'s supabase \<Rightarrow> jsstring \<Rightarrow> ProductFormData \<Rightarrow> 's world \<Rightarrow> (thrown + Product) \<times> 's world" where
  "updateProduct sb pid productData w =
     (case await (ProductsUpdate pid (productFields productData))
                 (products_update sb pid (productFields productData)) w of
        (Inl productError, w1) \<Rightarrow>
          (Inl (ThrownPg productError), notify (ToastError UpdateProductFailed) w1)
      | (Inr updatedProduct, w1) \<Rightarrow>
          (case variants productData of
             None \<Rightarrow> (Inr updatedProduct, w1)
           | Some vs \<Rightarrow>
               (case await (VariantsDelete pid) (variants_delete sb pid) w1 of
                  (Some deleteError, w2) \<Rightarrow>
                    (Inl (ThrownPg deleteError), notify (ToastError UpdateVariantsFailed) w2)
                | (None, w2) \<Rightarrow>
                    if length vs > 0 then
                      (case await (VariantsInsert (variantsToInsert pid vs))
                                  (variants_insert sb (variantsToInsert pid vs)) w2 of
                         (Some insertError, w3) \<Rightarrow>
                           (Inl (ThrownPg insertError),
                            notify (ToastError UpdateVariantsFailed) w3)
                       | (None, w3) \<Rightarrow> (Inr updatedProduct, w3))
                    else (Inr updatedProduct, w2))))"

definition getProduct ::
  "'s supabase \<Rightarrow> jsstring \<Rightarrow> 's world \<Rightarrow> (thrown + Product option) \<times> 's world" where
  \<comment> \<open>the error is written to the console and \<open>data\<close> is returned, \<open>null\<close> when there is an error\<close>
  "getProduct sb productId w =
     (case await (ProductsSelectVariants productId) (products_select_variants sb productId) w of
        (Inl error, w1) \<Rightarrow> (Inr None, w1)
      | (Inr data, w1) \<Rightarrow> (Inr (Some data), w1))"

text \<open>
  \<open>url.match(/productImage\/(.+)$/)\<close>, first capture group. The match is the leftmost
  one: the first place where \<open>productImage/\<close> is followed, up to the end of the
  string, by at least one code unit and no line terminator (\<open>.\<close> matches anything but
  a line terminator, \<open>$\<close> only the end of the input).
\<close>

definition lineTerminator :: "16 word \<Rightarrow> bool" where
  "lineTerminator c = (c = 0x000A \<or> c = 0x000D \<or> c = 0x2028 \<or> c = 0x2029)"

definition bucketSlash :: jsstring where
  "bucketSlash = ascii ''productImage/''"

fun matchPath :: "jsstring \<Rightarrow> jsstring option" where
  "matchPath [] = None"
| "matchPath (c # cs) =
     (if prefix bucketSlash (c # cs)
         \<and> drop (length bucketSlash) (c # cs) \<noteq> []
         \<and> list_all (\<lambda>u. \<not> lineTerminator u) (drop (length bucketSlash) (c # cs))
      then Some (drop (length bucketSlash) (c # cs))
      else matchPath cs)"

definition filePaths :: "jsstring list \<Rightarrow> jsstring list" where
  \<comment> \<open>\<open>productImages.map(url => match ? match[1] : null).filter(Boolean)\<close>:
      \<open>null\<close> and the empty string are dropped\<close>
  "filePaths imgs =
     List.map_filter
       (\<lambda>url. case matchPath url of
                 None \<Rightarrow> None
               | Some path \<Rightarrow> if path = [] then None else Some path) imgs"

record delete_result =
  success :: bool

definition deleteProduct ::
  "'s supabase \<Rightarrow> jsstring \<Rightarrow> 's world \<Rightarrow> (thrown + delete_result) \<times> 's world" where
  "deleteProduct sb productId w =
     (case await (ProductsSelectImages productId) (products_select_images sb productId) w of
        (Inl fetchError, w1) \<Rightarrow> (Inl (ThrownError (message fetchError)), w1)
      | (Inr images, w1) \<Rightarrow>
          (case await (ProductsDelete productId) (products_delete sb productId) w1 of
             (Some deleteError, w2) \<Rightarrow> (Inl (ThrownError (message deleteError)), w2)
           | (None, w2) \<Rightarrow>
               (case images of
                  None \<Rightarrow> (Inr \<lparr>success = True\<rparr>, w2)
                | Some imgs \<Rightarrow>
                    if length imgs > 0 \<and> length (filePaths imgs) > 0 then
                      (case await (StorageRemove (filePaths imgs))
                                  (storage_remove sb (filePaths imgs)) w2 of
                         (Some storageError, w3) \<Rightarrow>
                           (Inr \<lparr>success = True\<rparr>,
                            notify (ToastWarning ProductDeletedSomeImagesNot) w3)
                       | (None, w3) \<Rightarrow> (Inr \<lparr>success = True\<rparr>, w3))
                    else (Inr \<lparr>success = True\<rparr>, w2))))"

section \<open>Product form controller (hooks/useProductForm.ts)\<close>

text \<open>
  The controller's state: the form's \<open>productImages\<close> field, the files that wait
  for their upload, and the preview references released with
  \<open>URL.revokeObjectURL\<close> so far. A file is any value of type \<open>'f\<close>.
\<close>

record 'f form_state =
  formImages :: "jsstring list"
  pendingFiles :: "'f list"
  revoked :: "jsstring list"

definition blobPrefix :: jsstring where
  "blobPrefix = ascii ''blob:''"

definition storageDomain :: jsstring where
  "storageDomain = ascii ''supabase.co''"

definition existingUrls :: "jsstring list \<Rightarrow> jsstring list" where
  \<comment> \<open>\<open>currentImages.filter((img) => typeof img === "string" && img.includes("supabase.co"))\<close>\<close>
  "existingUrls currentImages = filter (\<lambda>img. includes_js img storageDomain) currentImages"

definition allImageUrls :: "jsstring list \<Rightarrow> jsstring list \<Rightarrow> jsstring list" where
  \<comment> \<open>\<open>[...existingUrls, ...uploadedUrls]\<close>\<close>
  "allImageUrls currentImages uploadedUrls = existingUrls currentImages @ uploadedUrls"

text \<open>
  Steps 2 to 5 of \<open>handleSubmit\<close>, once the uploads have returned their URLs: what
  is handed to which repository function.
\<close>

datatype form_mode = Create_mode | Edit_mode

datatype dispatch =
    Update jsstring ProductFormData
  | Create ProductFormData "ProductVariant list"

definition orEmpty :: "'a list option \<Rightarrow> 'a list" where
  \<comment> \<open>\<open>variants || []\<close>\<close>
  "orEmpty xs = (case xs of None \<Rightarrow> [] | Some ys \<Rightarrow> ys)"

definition submission ::
  "form_mode \<Rightarrow> jsstring option \<Rightarrow> ProductFormData \<Rightarrow> jsstring list \<Rightarrow> jsstring list
     \<Rightarrow> dispatch" where
  "submission mode productId data currentImages uploadedUrls =
     (let productData = (productFields data)\<lparr>productImages := allImageUrls currentImages uploadedUrls\<rparr>
      in case productId of
           Some pid \<Rightarrow>
             if mode = Edit_mode \<and> pid \<noteq> []
             then Update pid (productData\<lparr>variants := Some (orEmpty (variants data))\<rparr>)
             else Create productData (orEmpty (variants data))
         | None \<Rightarrow> Create productData (orEmpty (variants data)))"

definition handleImageSelect ::
  "('f \<times> jsstring) list option \<Rightarrow> 'f form_state \<Rightarrow> 'f form_state" where
  \<comment> \<open>each selected file comes with the reference \<open>URL.createObjectURL\<close> returns for it\<close>
  "handleImageSelect files st =
     (case files of
        None \<Rightarrow> st
      | Some fs \<Rightarrow>
          if length fs = 0 then st
          else st\<lparr>pendingFiles := pendingFiles st @ map fst fs,
                  formImages := formImages st @ map snd fs\<rparr>)"

definition at_index :: "'a list \<Rightarrow> int \<Rightarrow> 'a option" where
  \<comment> \<open>\<open>xs[index]\<close>: \<open>undefined\<close> outside the array\<close>
  "at_index xs i = (if 0 \<le> i \<and> i < int (length xs) then Some (xs ! nat i) else None)"

fun indexOf :: "'a list \<Rightarrow> 'a \<Rightarrow> int" where
  \<comment> \<open>\<open>xs.indexOf(x)\<close>: the first position of \<open>x\<close>, or -1\<close>
  "indexOf [] x = - 1"
| "indexOf (y # ys) x =
     (if y = x then 0 else if indexOf ys x = - 1 then - 1 else indexOf ys x + 1)"

definition filter_index :: "(int \<Rightarrow> bool) \<Rightarrow> 'a list \<Rightarrow> 'a list" where
  \<comment> \<open>\<open>xs.filter((_, i) => P(i))\<close>\<close>
  "filter_index P xs = map fst (filter (\<lambda>(x, i). P (int i)) (zip xs [0..<length xs]))"

definition blobUrls :: "jsstring list \<Rightarrow> jsstring list" where
  \<comment> \<open>\<open>currentImages.filter((img) => img?.startsWith("blob:"))\<close>\<close>
  "blobUrls currentImages = filter (\<lambda>img. startsWith img blobPrefix) currentImages"

definition removeImage :: "int \<Rightarrow> 'f form_state \<Rightarrow> 'f form_state" where
  "removeImage index st =
     (let currentImages = formImages st;
          st1 =
            (case at_index currentImages index of
               None \<Rightarrow> st
             | Some imageToRemove \<Rightarrow>
                 if startsWith imageToRemove blobPrefix then
                   (let blobIndex = indexOf (blobUrls currentImages) imageToRemove;
                        st0 =
                          (if blobIndex \<noteq> - 1
                           then st\<lparr>pendingFiles :=
                                     filter_index (\<lambda>i. i \<noteq> blobIndex) (pendingFiles st)\<rparr>
                           else st)
                    in st0\<lparr>revoked := revoked st0 @ [imageToRemove]\<rparr>)
                 else st);
          newImages = filter_index (\<lambda>i. i \<noteq> index) currentImages
      in st1\<lparr>formImages := newImages\<rparr>)"

section \<open>Product list view (routes/products/index.tsx)\<close>

text \<open>
  Two functions of the language's library are parameters of the list view: the
  lower-casing of a string and the parsing of a date string into milliseconds
  (\<open>new Date(s).getTime()\<close>, \<open>None\<close> for \<open>NaN\<close>).
\<close>

record runtime =
  toLowerCase :: "jsstring \<Rightarrow> jsstring"
  getTime :: "jsstring \<Rightarrow> real option"

datatype jsval = Undefined | NaN | Num real | Str jsstring

fun js_less :: "jsval \<Rightarrow> jsval \<Rightarrow> bool" where
  \<comment> \<open>\<open>a < b\<close>: two strings by code units, two numbers by value; \<open>undefined\<close> converts to
      \<open>NaN\<close>, and a comparison with \<open>NaN\<close> is false\<close>
  "js_less (Str s) (Str t) = (s < t)"
| "js_less (Num x) (Num y) = (x < y)"
| "js_less _ _ = False"

definition properties :: "Product \<Rightarrow> (string \<times> jsval) list" where
  \<comment> \<open>the string and number properties of a product row, by name (interface \<open>Product\<close>)\<close>
  "properties p =
     [(''productName'', Str (productName p)),
      (''productDescription'', Str (productDescription p)),
      (''productTags'', Str (productTags p)),
      (''inventoryNumber'', Str (inventoryNumber p)),
      (''inventoryQuantity'', Num (inventoryQuantity p)),
      (''exchangeRate'', Num (exchangeRate p)),
      (''costPrice'', Num (costPrice p)),
      (''productPrice'', Num (productPrice p)),
      (''id'', Str (id' p)),
      (''created_at'', Str (created_at p)),
      (''updated_at'', Str (updated_at p))]"

definition getProperty :: "Product \<Rightarrow> string \<Rightarrow> jsval" where
  \<comment> \<open>\<open>a[key]\<close>: \<open>undefined\<close> when the row has no property of that name\<close>
  "getProperty p key = (case map_of (properties p) key of None \<Rightarrow> Undefined | Some v \<Rightarrow> v)"

datatype sort_key = Key_id | Key_qty | Key_created_at

fun key_name :: "sort_key \<Rightarrow> string" where
  \<comment> \<open>\<open>useState<"id" | "qty" | "created_at">\<close>\<close>
  "key_name Key_id = ''id''"
| "key_name Key_qty = ''qty''"
| "key_name Key_created_at = ''created_at''"

definition sortValue :: "runtime \<Rightarrow> sort_key \<Rightarrow> Product \<Rightarrow> jsval" where
  "sortValue rt sortKey a =
     (if sortKey = Key_created_at
      then (case getTime rt (created_at a) of None \<Rightarrow> NaN | Some t \<Rightarrow> Num t)
      else getProperty a (key_name sortKey))"

definition compareFn :: "runtime \<Rightarrow> sort_key \<Rightarrow> bool \<Rightarrow> Product \<Rightarrow> Product \<Rightarrow> int" where
  "compareFn rt sortKey sortAsc a b =
     (let aVal = sortValue rt sortKey a; bVal = sortValue rt sortKey b
      in if js_less aVal bVal then (if sortAsc then - 1 else 1)
         else if js_less bVal aVal then (if sortAsc then 1 else - 1)
         else 0)"

text \<open>
  \<open>Array.prototype.sort\<close> with a comparison function. The language requires the sort
  to be stable, so for a comparison function that is a consistent ordering the
  result is determined; it is computed here by insertion from the right, an element
  going in front of the first element it does not compare greater than. For a
  comparison function that is not a consistent ordering the language leaves the order
  to the implementation, and the list computed here need not be the one an engine
  returns. In the list view this is the case of a creation time that does not parse:
  \<open>NaN\<close> ties with every value. Whatever is said below about the order of the sorted
  list is said for consistent comparisons only; for the others only the elements of
  the list are determined, not their order.
\<close>

fun insert_by :: "('a \<Rightarrow> 'a \<Rightarrow> int) \<Rightarrow> 'a \<Rightarrow> 'a list \<Rightarrow> 'a list" where
  "insert_by cmp x [] = [x]"
| "insert_by cmp x (y # ys) = (if cmp x y \<le> 0 then x # y # ys else y # insert_by cmp x ys)"

definition sort_by :: "('a \<Rightarrow> 'a \<Rightarrow> int) \<Rightarrow> 'a list \<Rightarrow> 'a list" where
  "sort_by cmp xs = foldr (insert_by cmp) xs []"

definition whiteSpace :: "16 word \<Rightarrow> bool" where
  \<comment> \<open>the code units \<open>trim\<close> strips: white space and line terminators\<close>
  "whiteSpace c =
     (c \<in> {0x0009, 0x000A, 0x000B, 0x000C, 0x000D, 0x0020, 0x00A0, 0x1680,
            0x2028, 0x2029, 0x202F, 0x205F, 0x3000, 0xFEFF}
      \<or> (0x2000 \<le> c \<and> c \<le> 0x200A))"

definition trim :: "jsstring \<Rightarrow> jsstring" where
  "trim s = rev (dropWhile whiteSpace (rev (dropWhile whiteSpace s)))"

definition allTags :: jsstring where
  \<comment> \<open>the two code units of the option "all" of the tag selector\<close>
  "allTags = [0x5168, 0x90E8]"

definition filterStage :: "runtime \<Rightarrow> Product list \<Rightarrow> jsstring \<Rightarrow> jsstring \<Rightarrow> Product list" where
  "filterStage rt ps searchTerm filterCategory =
     (let list1 =
            (if trim searchTerm \<noteq> []
             then filter (\<lambda>p. includes_js (toLowerCase rt (productName p))
                                         (toLowerCase rt searchTerm)) ps
             else ps);
          list2 =
            (if filterCategory \<noteq> allTags
             then filter (\<lambda>p. productTags p = filterCategory) list1
             else list1)
      in list2)"

definition filteredProducts ::
  "runtime \<Rightarrow> Product list option \<Rightarrow> jsstring \<Rightarrow> jsstring \<Rightarrow> sort_key \<Rightarrow> bool
     \<Rightarrow> Product list" where
  "filteredProducts rt products searchTerm filterCategory sortKey sortAsc =
     (case products of
        None \<Rightarrow> []
      | Some ps \<Rightarrow>
          if length ps = 0 then []
          else sort_by (compareFn rt sortKey sortAsc)
                       (filterStage rt ps searchTerm filterCategory))"

section \<open>An in-memory store and sample data\<close>

text \<open>
  A small store that can stand behind the client, used for the worked examples:
  two tables, a bucket of storage keys, and the identifiers it will hand out.
  \<open>single\<close> answers as the client's \<open>.single()\<close> does: the row when exactly one row
  matches, an error otherwise.
\<close>

record store =
  products_tbl :: "Product list"
  variants_tbl :: "VariantRow list"
  bucket :: "jsstring list"
  next_ids :: "jsstring list"

definition single :: "'a list \<Rightarrow> pg_error + 'a" where
  "single rows =
     (case rows of
        [r] \<Rightarrow> Inr r
      | _ \<Rightarrow> Inl \<lparr>message = ascii ''JSON object requested, multiple (or no) rows returned''\<rparr>)"

definition newRow :: "ProductFormData \<Rightarrow> jsstring \<Rightarrow> jsstring \<Rightarrow> Product" where
  "newRow d i t =
     \<lparr>productName = productName d, productDescription = productDescription d,
      productTags = productTags d, productImages = productImages d,
      inventoryNumber = inventoryNumber d, inventoryQuantity = inventoryQuantity d,
      exchangeRate = exchangeRate d, costPrice = costPrice d, productPrice = productPrice d,
      variants = None, id' = i, created_at = t, updated_at = t\<rparr>"

definition joined :: "VariantRow \<Rightarrow> ProductVariant" where
  "joined r =
     \<lparr>variant_id = row_id r, name = row_name r, stock = row_stock r, price = row_price r\<rparr>"

definition byId :: "jsstring \<Rightarrow> store \<Rightarrow> Product list" where
  "byId pid s = filter (\<lambda>p. id' p = pid) (products_tbl s)"

definition memory :: "store supabase" where
  "memory =
     \<lparr>products_insert = (\<lambda>d s.
        case next_ids s of
          [] \<Rightarrow> (Inl \<lparr>message = ascii ''no identifier left''\<rparr>, s)
        | i # rest \<Rightarrow>
            (Inr (newRow d i (ascii ''2025-01-01T00:00:00Z'')),
             s\<lparr>products_tbl := products_tbl s @ [newRow d i (ascii ''2025-01-01T00:00:00Z'')],
               next_ids := rest\<rparr>)),
      products_update = (\<lambda>pid d s.
        case single (byId pid s) of
          Inl e \<Rightarrow> (Inl e, s)
        | Inr r \<Rightarrow>
            (Inr (newRow d pid (created_at r)),
             s\<lparr>products_tbl :=
                 map (\<lambda>p. if id' p = pid then newRow d pid (created_at r) else p)
                     (products_tbl s)\<rparr>)),
      products_select_variants = (\<lambda>pid s.
        case single (byId pid s) of
          Inl e \<Rightarrow> (Inl e, s)
        | Inr r \<Rightarrow>
            (Inr (r\<lparr>variants :=
                      Some (map joined
                              (filter (\<lambda>v. row_product_id v = pid) (variants_tbl s)))\<rparr>), s)),
      products_select_images = (\<lambda>pid s.
        case single (byId pid s) of
          Inl e \<Rightarrow> (Inl e, s)
        | Inr r \<Rightarrow> (Inr (Some (productImages r)), s)),
      products_delete = (\<lambda>pid s.
        (None, s\<lparr>products_tbl := filter (\<lambda>p. id' p \<noteq> pid) (products_tbl s)\<rparr>)),
      variants_delete = (\<lambda>pid s.
        (None, s\<lparr>variants_tbl := filter (\<lambda>v. row_product_id v \<noteq> pid) (variants_tbl s)\<rparr>)),
      variants_insert = (\<lambda>rows s. (None, s\<lparr>variants_tbl := variants_tbl s @ rows\<rparr>)),
      storage_remove = (\<lambda>paths s.
        (None, s\<lparr>bucket := filter (\<lambda>k. k \<notin> set paths) (bucket s)\<rparr>))\<rparr>"

definition failingStorage :: "store supabase" where
  \<comment> \<open>the same store with an object storage that refuses every removal\<close>
  "failingStorage =
     memory\<lparr>storage_remove := (\<lambda>paths s. (Some \<lparr>message = ascii ''storage unavailable''\<rparr>, s))\<rparr>"

definition hat :: ProductFormData where
  "hat =
     \<lparr>productName = ascii ''Hat'', productDescription = [], productTags = ascii ''Apparel'',
      productImages = [], inventoryNumber = ascii ''A-1'', inventoryQuantity = 5,
      exchangeRate = 1, costPrice = 8, productPrice = 10, variants = None\<rparr>"

definition red :: ProductVariant where
  "red = \<lparr>variant_id = None, name = ascii ''Red'', stock = 5, price = 12\<rparr>"

definition blue :: ProductVariant where
  "blue = \<lparr>variant_id = Some (ascii ''v7''), name = ascii ''Blue'', stock = 2, price = 11\<rparr>"

definition imageUrl :: jsstring where
  "imageUrl = ascii ''https://x.supabase.co/storage/v1/object/public/productImage/products/a.jpg''"

definition emptyStore :: "store world" where
  "emptyStore =
     \<lparr>remote = \<lparr>products_tbl = [], variants_tbl = [], bucket = [],
                next_ids = [ascii ''p1'', ascii ''p2'']\<rparr>,
      calls = [], toasts = []\<rparr>"

definition stocked :: "store world" where
  \<comment> \<open>one product, \<open>p1\<close>, with two variants and one stored image\<close>
  "stocked =
     \<lparr>remote =
        \<lparr>products_tbl =
           [newRow (hat\<lparr>productImages := [imageUrl]\<rparr>) (ascii ''p1'')
                   (ascii ''2024-01-01T00:00:00Z'')],
         variants_tbl =
           [\<lparr>row_id = Some (ascii ''v1''), row_product_id = ascii ''p1'',
             row_name = ascii ''Red'', row_stock = 5, row_price = 12\<rparr>,
            \<lparr>row_id = Some (ascii ''v7''), row_product_id = ascii ''p1'',
             row_name = ascii ''Blue'', row_stock = 2, row_price = 11\<rparr>],
         bucket = [ascii ''products/a.jpg''],
         next_ids = [ascii ''p2'']\<rparr>,
      calls = [], toasts = []\<rparr>"

definition otherUrl :: jsstring where
  "otherUrl = ascii ''https://x.supabase.co/storage/v1/object/public/productImage/products/b.png''"

definition foreignUrl :: jsstring where
  \<comment> \<open>an image that is not in the bucket\<close>
  "foreignUrl = ascii ''https://example.com/c.png''"

definition gallery :: "store world" where
  \<comment> \<open>product \<open>p1\<close> with three images, two of them in the bucket\<close>
  "gallery =
     \<lparr>remote =
        \<lparr>products_tbl =
           [newRow (hat\<lparr>productImages := [imageUrl, foreignUrl, otherUrl]\<rparr>) (ascii ''p1'')
                   (ascii ''2024-01-01T00:00:00Z'')],
         variants_tbl = [],
         bucket = [ascii ''products/a.jpg'', ascii ''products/b.png'', ascii ''products/z.gif''],
         next_ids = [ascii ''p2'']\<rparr>,
      calls = [], toasts = []\<rparr>"

text \<open>
  The state the controller keeps between two of its operations: the previews in the
  image field are pairwise different (\<open>URL.createObjectURL\<close> returns a new reference
  at each call) and there is one pending file for each of them, in the same order.
\<close>

definition previewsMatch :: "'f form_state \<Rightarrow> bool" where
  "previewsMatch st =
     (distinct (blobUrls (formImages st))
      \<and> length (pendingFiles st) = length (blobUrls (formImages st)))"

definition sampleForm :: "string form_state" where
  \<comment> \<open>one stored image and two previews, with the two files that wait for their upload\<close>
  "sampleForm =
     \<lparr>formImages = [imageUrl, ascii ''blob:http://localhost:5173/1'',
                     ascii ''blob:http://localhost:5173/2''],
      pendingFiles = [''one.png'', ''two.png''],
      revoked = []\<rparr>"

text \<open>
  A runtime for the examples. It agrees with the language on the strings the
  examples use: \<open>toLowerCase\<close> on strings of ASCII characters, \<open>getTime\<close> on two
  dates.
\<close>

definition asciiLower :: "jsstring \<Rightarrow> jsstring" where
  "asciiLower s = map (\<lambda>c. if 0x41 \<le> c \<and> c \<le> 0x5A then c + 0x20 else c) s"

definition sampleRuntime :: runtime where
  "sampleRuntime =
     \<lparr>toLowerCase = asciiLower,
      getTime = map_of [(ascii ''2024-01-01T00:00:00Z'', 1704067200000),
                        (ascii ''2025-01-01T00:00:00Z'', 1735689600000)]\<rparr>"

definition hatRow :: Product where
  \<comment> \<open>five in stock\<close>
  "hatRow = newRow hat (ascii ''p1'') (ascii ''2024-01-01T00:00:00Z'')"

definition capRow :: Product where
  \<comment> \<open>three in stock\<close>
  "capRow =
     newRow (hat\<lparr>productName := ascii ''Cap'', productTags := ascii ''Sale'',
                 inventoryQuantity := 3\<rparr>)
            (ascii ''p2'') (ascii ''2025-01-01T00:00:00Z'')"

section \<open>Requests issued by the repository\<close>

text \<open>
  Claim C4. Every call of \<open>createProducts\<close> issues exactly one product insert, as its
  first request, and with an empty variant list it issues nothing else. When the
  product insert succeeds, a variant insert follows if and only if the variant list is
  non-empty; it carries one row per variant, each tagged with the identifier of the
  product just created. When nothing fails, the created product is returned. The
  store is left as the requests issued leave it, so the rows are inserted. A failing
  insert is thrown as it is, and after a failing product insert nothing else is
  requested. No notification is shown.
\<close>

theorem createProducts_inserts:
  "(\<exists>rest. calls (snd (createProducts sb productData vs w))
              = calls w @ ProductsInsert productData # rest
        \<and> (\<forall>rq\<in>set rest. \<forall>d. rq \<noteq> ProductsInsert d)
        \<and> (vs = [] \<longrightarrow> rest = []))
   \<and> (\<forall>product. fst (products_insert sb productData (remote w)) = Inr product \<longrightarrow>
          calls (snd (createProducts sb productData vs w))
            = calls w @ ProductsInsert productData #
                (if vs = [] then []
                 else [VariantsInsert
                         (map (\<lambda>v. \<lparr>row_id = variant_id v, row_product_id = id' product,
                                    row_name = name v, row_stock = stock v,
                                    row_price = price v\<rparr>) vs)])
        \<and> ((vs = [] \<or> fst (variants_insert sb (variantsWithProductId product vs)
                               (snd (products_insert sb productData (remote w)))) = None)
             \<longrightarrow> fst (createProducts sb productData vs w) = Inr product))
   \<and> remote (snd (createProducts sb productData vs w))
       = served sb (drop (length (calls w)) (calls (snd (createProducts sb productData vs w))))
           (remote w)
   \<and> toasts (snd (createProducts sb productData vs w)) = toasts w
   \<and> (\<forall>e. fst (products_insert sb productData (remote w)) = Inl e \<longrightarrow>
          fst (createProducts sb productData vs w) = Inl (ThrownPg e)
        \<and> calls (snd (createProducts sb productData vs w)) = calls w @ [ProductsInsert productData])
   \<and> (\<forall>product e.
          fst (products_insert sb productData (remote w)) = Inr product \<and> vs \<noteq> []
          \<and> fst (variants_insert sb (variantsWithProductId product vs)
                   (snd (products_insert sb productData (remote w)))) = Some e \<longrightarrow>
          fst (createProducts sb productData vs w) = Inl (ThrownPg e))"
  by (auto simp: createProducts_def await_def variantsWithProductId_def served_def
           split: prod.splits sum.splits option.splits)

text \<open>
  The scenario of the specification: a product \<open>Hat\<close> with the one variant \<open>Red\<close>,
  created in an empty store that assigns the identifier \<open>p1\<close>; afterwards the store
  holds the product row and the variant row. The same product without variants:
  one request, no variant row. And a store that has no identifier left: the product
  insert fails, the error is thrown and no variant insert is requested.
\<close>

theorem createProducts_inserts_witness:
  "fst (products_insert memory hat (remote emptyStore))
     = Inr (newRow hat (ascii ''p1'') (ascii ''2025-01-01T00:00:00Z''))
   \<and> calls (snd (createProducts memory hat [red] emptyStore))
     = [ProductsInsert hat,
        VariantsInsert [\<lparr>row_id = None, row_product_id = ascii ''p1'',
                         row_name = ascii ''Red'', row_stock = 5, row_price = 12\<rparr>]]
   \<and> fst (createProducts memory hat [red] emptyStore)
     = Inr (newRow hat (ascii ''p1'') (ascii ''2025-01-01T00:00:00Z''))
   \<and> products_tbl (remote emptyStore) = []
   \<and> variants_tbl (remote emptyStore) = []
   \<and> products_tbl (remote (snd (createProducts memory hat [red] emptyStore)))
     = [newRow hat (ascii ''p1'') (ascii ''2025-01-01T00:00:00Z'')]
   \<and> variants_tbl (remote (snd (createProducts memory hat [red] emptyStore)))
     = [\<lparr>row_id = None, row_product_id = ascii ''p1'',
         row_name = ascii ''Red'', row_stock = 5, row_price = 12\<rparr>]
   \<and> calls (snd (createProducts memory hat [] emptyStore)) = [ProductsInsert hat]
   \<and> variants_tbl (remote (snd (createProducts memory hat [] emptyStore))) = []
   \<and> fst (products_insert memory hat ((remote stocked)\<lparr>next_ids := []\<rparr>))
     = Inl \<lparr>message = ascii ''no identifier left''\<rparr>
   \<and> fst (createProducts memory hat [red] (stocked\<lparr>remote := (remote stocked)\<lparr>next_ids := []\<rparr>\<rparr>))
     = Inl (ThrownPg \<lparr>message = ascii ''no identifier left''\<rparr>)
   \<and> calls (snd (createProducts memory hat [red]
                   (stocked\<lparr>remote := (remote stocked)\<lparr>next_ids := []\<rparr>\<rparr>)))
     = [ProductsInsert hat]"
proof -
  let ?p = "newRow hat (ascii ''p1'') (ascii ''2025-01-01T00:00:00Z'')"
  let ?row = "\<lparr>row_id = None, row_product_id = ascii ''p1'',
         row_name = ascii ''Red'', row_stock = 5, row_price = 12\<rparr>"
  note all = createProducts_inserts [of memory hat "[red]" emptyStore]
  have ins: "fst (products_insert memory hat (remote emptyStore)) = Inr ?p"
    by (simp add: memory_def emptyStore_def)
  have var: "fst (variants_insert memory (variantsWithProductId ?p [red])
                    (snd (products_insert memory hat (remote emptyStore)))) = None"
    by (simp add: memory_def)
  have c: "calls emptyStore = []" "id' ?p = ascii ''p1''"
    by (simp_all add: emptyStore_def newRow_def)
  from all ins var
  have a: "calls (snd (createProducts memory hat [red] emptyStore))
     = [ProductsInsert hat, VariantsInsert [?row]]
   \<and> fst (createProducts memory hat [red] emptyStore) = Inr ?p"
    by (simp add: c red_def)
  from all have "remote (snd (createProducts memory hat [red] emptyStore))
      = served memory (drop (length (calls emptyStore))
          (calls (snd (createProducts memory hat [red] emptyStore)))) (remote emptyStore)"
    by blast
  then have st: "remote (snd (createProducts memory hat [red] emptyStore))
      = served memory [ProductsInsert hat, VariantsInsert [?row]] (remote emptyStore)"
    by (simp add: a c)
  have e: "products_tbl (remote emptyStore) = []" "variants_tbl (remote emptyStore) = []"
    by (simp_all add: emptyStore_def)
  have t: "products_tbl (remote (snd (createProducts memory hat [red] emptyStore))) = [?p]"
    "variants_tbl (remote (snd (createProducts memory hat [red] emptyStore))) = [?row]"
    unfolding st by (simp_all add: served_def memory_def emptyStore_def)
  note none = createProducts_inserts [of memory hat "[]" emptyStore]
  from none have n: "calls (snd (createProducts memory hat [] emptyStore)) = [ProductsInsert hat]"
    by (auto simp: c)
  from none have "remote (snd (createProducts memory hat [] emptyStore))
      = served memory (drop (length (calls emptyStore))
          (calls (snd (createProducts memory hat [] emptyStore)))) (remote emptyStore)"
    by blast
  then have st0: "remote (snd (createProducts memory hat [] emptyStore))
      = served memory [ProductsInsert hat] (remote emptyStore)"
    by (simp add: n c)
  have nv: "variants_tbl (remote (snd (createProducts memory hat [] emptyStore))) = []"
    unfolding st0 by (simp add: served_def memory_def emptyStore_def)
  let ?w = "stocked\<lparr>remote := (remote stocked)\<lparr>next_ids := []\<rparr>\<rparr>"
  have f: "fst (products_insert memory hat ((remote stocked)\<lparr>next_ids := []\<rparr>))
     = Inl \<lparr>message = ascii ''no identifier left''\<rparr>"
    by (simp add: memory_def)
  have cw: "calls ?w = []" "remote ?w = (remote stocked)\<lparr>next_ids := []\<rparr>"
    by (simp_all add: stocked_def)
  from createProducts_inserts [of memory hat "[red]" ?w] f
  have x: "fst (createProducts memory hat [red] ?w)
       = Inl (ThrownPg \<lparr>message = ascii ''no identifier left''\<rparr>)
     \<and> calls (snd (createProducts memory hat [red] ?w)) = [ProductsInsert hat]"
    by (simp add: cw)
  from ins a e t n nv f x show ?thesis by simp
qed

text \<open>
  Claim C1, as the code has it. Every call of \<open>updateProduct\<close> first issues the update
  of the product row with the given identifier. When that update succeeds and the
  payload carries a variant list, empty or not, the next request deletes all variant
  rows of that product identifier; with an empty list nothing follows the delete, and
  with a non-empty list whose delete succeeded the insert of the new variant set
  follows. A payload that carries no variant list issues neither the delete nor an
  insert, whatever the store answers. After a failed update nothing else is requested,
  and after a failed delete no insert is requested; the failure is thrown and shown
  as an error notification. The store is left as the requests issued leave it, and
  the updated product is returned when nothing fails.
\<close>

theorem updateProduct_sequence:
  "(\<exists>rest. calls (snd (updateProduct sb pid productData w))
              = calls w @ ProductsUpdate pid (productFields productData) # rest)
   \<and> (\<forall>updated. fst (products_update sb pid (productFields productData) (remote w)) = Inr updated \<longrightarrow>
          (variants productData = None \<longrightarrow>
             calls (snd (updateProduct sb pid productData w))
               = calls w @ [ProductsUpdate pid (productFields productData)])
        \<and> (\<forall>vs. variants productData = Some vs \<longrightarrow>
              (\<exists>rest. calls (snd (updateProduct sb pid productData w))
                         = calls w @ ProductsUpdate pid (productFields productData)
                             # VariantsDelete pid # rest
                  \<and> (vs = [] \<longrightarrow> rest = [])
                  \<and> (vs \<noteq> [] \<and> fst (variants_delete sb pid
                                        (snd (products_update sb pid (productFields productData)
                                               (remote w)))) = None
                       \<longrightarrow> rest = [VariantsInsert (variantsToInsert pid vs)]))))
   \<and> remote (snd (updateProduct sb pid productData w))
       = served sb (drop (length (calls w)) (calls (snd (updateProduct sb pid productData w))))
           (remote w)
   \<and> (variants productData = None \<longrightarrow>
         calls (snd (updateProduct sb pid productData w))
           = calls w @ [ProductsUpdate pid (productFields productData)])
   \<and> (\<forall>e. fst (products_update sb pid (productFields productData) (remote w)) = Inl e \<longrightarrow>
          fst (updateProduct sb pid productData w) = Inl (ThrownPg e)
        \<and> calls (snd (updateProduct sb pid productData w))
            = calls w @ [ProductsUpdate pid (productFields productData)]
        \<and> toasts (snd (updateProduct sb pid productData w))
            = toasts w @ [ToastError UpdateProductFailed])
   \<and> (\<forall>updated. fst (products_update sb pid (productFields productData) (remote w)) = Inr updated \<longrightarrow>
          (variants productData = None \<longrightarrow>
             fst (updateProduct sb pid productData w) = Inr updated
           \<and> toasts (snd (updateProduct sb pid productData w)) = toasts w)
        \<and> (\<forall>vs. variants productData = Some vs \<longrightarrow>
              (\<forall>e. fst (variants_delete sb pid
                          (served sb [ProductsUpdate pid (productFields productData)] (remote w)))
                      = Some e \<longrightarrow>
                   fst (updateProduct sb pid productData w) = Inl (ThrownPg e)
                 \<and> calls (snd (updateProduct sb pid productData w))
                     = calls w @ [ProductsUpdate pid (productFields productData), VariantsDelete pid]
                 \<and> toasts (snd (updateProduct sb pid productData w))
                     = toasts w @ [ToastError UpdateVariantsFailed])
            \<and> (fst (variants_delete sb pid
                       (served sb [ProductsUpdate pid (productFields productData)] (remote w)))
                   = None \<longrightarrow>
                  (vs = [] \<longrightarrow>
                     fst (updateProduct sb pid productData w) = Inr updated
                   \<and> toasts (snd (updateProduct sb pid productData w)) = toasts w)
                \<and> (vs \<noteq> [] \<longrightarrow>
                     (fst (variants_insert sb (variantsToInsert pid vs)
                             (served sb [ProductsUpdate pid (productFields productData),
                                         VariantsDelete pid] (remote w))) = None \<longrightarrow>
                        fst (updateProduct sb pid productData w) = Inr updated
                      \<and> toasts (snd (updateProduct sb pid productData w)) = toasts w)
                   \<and> (\<forall>e. fst (variants_insert sb (variantsToInsert pid vs)
                                  (served sb [ProductsUpdate pid (productFields productData),
                                              VariantsDelete pid] (remote w))) = Some e \<longrightarrow>
                          fst (updateProduct sb pid productData w) = Inl (ThrownPg e)
                        \<and> toasts (snd (updateProduct sb pid productData w))
                            = toasts w @ [ToastError UpdateVariantsFailed])))))"
  by (auto simp: updateProduct_def await_def notify_def served_def
           split: prod.splits sum.splits option.splits)

text \<open>
  The delete is not unconditional: product \<open>p1\<close> has two variants in the store, the
  payload has no \<open>variants\<close> property, the update succeeds and no delete is issued.
\<close>

theorem updateProduct_no_variants_no_delete:
  "fst (updateProduct memory (ascii ''p1'') hat stocked)
     = Inr (newRow hat (ascii ''p1'') (ascii ''2024-01-01T00:00:00Z''))
   \<and> calls (snd (updateProduct memory (ascii ''p1'') hat stocked))
     = [ProductsUpdate (ascii ''p1'') hat]
   \<and> VariantsDelete (ascii ''p1'')
       \<notin> set (calls (snd (updateProduct memory (ascii ''p1'') hat stocked)))"
  by (simp add: updateProduct_def await_def memory_def stocked_def single_def byId_def
        productFields_def hat_def newRow_def)

text \<open>
  The scenario of the specification: product \<open>p1\<close> goes from two variants to none.
  The delete is issued and no insert follows; the store has no variant row left. And
  an update of \<open>p9\<close>, which the store does not have, with one variant: the update
  fails, nothing else is requested and the failure is shown.
\<close>

theorem updateProduct_sequence_witness:
  "fst (products_update memory (ascii ''p1'') (productFields (hat\<lparr>variants := Some []\<rparr>))
          (remote stocked))
     = Inr (newRow hat (ascii ''p1'') (ascii ''2024-01-01T00:00:00Z''))
   \<and> length (filter (\<lambda>v. row_product_id v = ascii ''p1'') (variants_tbl (remote stocked))) = 2
   \<and> calls (snd (updateProduct memory (ascii ''p1'') (hat\<lparr>variants := Some []\<rparr>) stocked))
     = [ProductsUpdate (ascii ''p1'') hat, VariantsDelete (ascii ''p1'')]
   \<and> fst (updateProduct memory (ascii ''p1'') (hat\<lparr>variants := Some []\<rparr>) stocked)
     = Inr (newRow hat (ascii ''p1'') (ascii ''2024-01-01T00:00:00Z''))
   \<and> variants_tbl (remote (snd (updateProduct memory (ascii ''p1'')
                                   (hat\<lparr>variants := Some []\<rparr>) stocked))) = []
   \<and> products_tbl (remote (snd (updateProduct memory (ascii ''p1'')
                                   (hat\<lparr>variants := Some []\<rparr>) stocked)))
     = [newRow hat (ascii ''p1'') (ascii ''2024-01-01T00:00:00Z'')]
   \<and> fst (products_update memory (ascii ''p9'') (productFields (hat\<lparr>variants := Some [red]\<rparr>))
          (remote stocked))
     = Inl \<lparr>message = ascii ''JSON object requested, multiple (or no) rows returned''\<rparr>
   \<and> fst (updateProduct memory (ascii ''p9'') (hat\<lparr>variants := Some [red]\<rparr>) stocked)
     = Inl (ThrownPg \<lparr>message = ascii ''JSON object requested, multiple (or no) rows returned''\<rparr>)
   \<and> calls (snd (updateProduct memory (ascii ''p9'') (hat\<lparr>variants := Some [red]\<rparr>) stocked))
     = [ProductsUpdate (ascii ''p9'') hat]
   \<and> toasts (snd (updateProduct memory (ascii ''p9'') (hat\<lparr>variants := Some [red]\<rparr>) stocked))
     = [ToastError UpdateProductFailed]"
proof -
  let ?d = "hat\<lparr>variants := Some []\<rparr>"
  let ?p = "newRow hat (ascii ''p1'') (ascii ''2024-01-01T00:00:00Z'')"
  note all = updateProduct_sequence [of memory "ascii ''p1''" ?d stocked]
  have f: "productFields ?d = hat"
    by (simp add: productFields_def hat_def)
  have upd: "fst (products_update memory (ascii ''p1'') (productFields ?d) (remote stocked)) = Inr ?p"
    by (simp add: f) (simp add: memory_def stocked_def single_def byId_def newRow_def)
  have two: "length (filter (\<lambda>v. row_product_id v = ascii ''p1'')
                       (variants_tbl (remote stocked))) = 2"
    by (simp add: stocked_def)
  have v: "variants ?d = Some []" by simp
  have c: "calls stocked = []" "toasts stocked = []" by (simp_all add: stocked_def)
  have del: "fst (variants_delete memory (ascii ''p1'')
                    (served memory [ProductsUpdate (ascii ''p1'') (productFields ?d)]
                       (remote stocked))) = None"
    by (simp add: memory_def)
  from all upd v
  have k: "calls (snd (updateProduct memory (ascii ''p1'') ?d stocked))
     = [ProductsUpdate (ascii ''p1'') hat, VariantsDelete (ascii ''p1'')]"
    by (auto simp: c f)
  from all upd v del
  have r: "fst (updateProduct memory (ascii ''p1'') ?d stocked) = Inr ?p"
    by blast
  from all have "remote (snd (updateProduct memory (ascii ''p1'') ?d stocked))
      = served memory (drop (length (calls stocked))
          (calls (snd (updateProduct memory (ascii ''p1'') ?d stocked)))) (remote stocked)"
    by blast
  then have st: "remote (snd (updateProduct memory (ascii ''p1'') ?d stocked))
      = served memory [ProductsUpdate (ascii ''p1'') hat, VariantsDelete (ascii ''p1'')]
          (remote stocked)"
    by (simp add: k c)
  have t: "variants_tbl (remote (snd (updateProduct memory (ascii ''p1'') ?d stocked))) = []"
    "products_tbl (remote (snd (updateProduct memory (ascii ''p1'') ?d stocked))) = [?p]"
    unfolding st
    by (simp_all add: served_def memory_def stocked_def single_def byId_def newRow_def)
  let ?e = "hat\<lparr>variants := Some [red]\<rparr>"
  have fe: "productFields ?e = hat"
    by (simp add: productFields_def hat_def)
  have miss: "fst (products_update memory (ascii ''p9'') (productFields ?e) (remote stocked))
     = Inl \<lparr>message = ascii ''JSON object requested, multiple (or no) rows returned''\<rparr>"
    by (simp add: fe) (simp add: memory_def stocked_def single_def byId_def newRow_def ascii_def)
  from updateProduct_sequence [of memory "ascii ''p9''" ?e stocked] miss
  have x: "fst (updateProduct memory (ascii ''p9'') ?e stocked)
     = Inl (ThrownPg \<lparr>message = ascii ''JSON object requested, multiple (or no) rows returned''\<rparr>)
   \<and> calls (snd (updateProduct memory (ascii ''p9'') ?e stocked))
     = [ProductsUpdate (ascii ''p9'') hat]
   \<and> toasts (snd (updateProduct memory (ascii ''p9'') ?e stocked))
     = [ToastError UpdateProductFailed]"
    by (simp add: c fe)
  from upd two k r t miss x show ?thesis by simp
qed

text \<open>
  Claim C2, as the code has it. \<open>getProduct\<close> issues one select and never fails: when
  the store answers with an error, as it does when no row has the identifier, the error
  goes to the console and the result is \<open>null\<close>; when the store answers with a row, the
  result is that row, which the select joined with its variants.
\<close>

theorem getProduct_returns_data:
  "(\<forall>t. fst (getProduct sb pid w) \<noteq> Inl t)
   \<and> calls (snd (getProduct sb pid w)) = calls w @ [ProductsSelectVariants pid]
   \<and> (\<forall>e. fst (products_select_variants sb pid (remote w)) = Inl e \<longrightarrow>
          fst (getProduct sb pid w) = Inr None)
   \<and> (\<forall>row. fst (products_select_variants sb pid (remote w)) = Inr row \<longrightarrow>
          fst (getProduct sb pid w) = Inr (Some row))"
  by (auto simp: getProduct_def await_def split: prod.splits sum.splits)

text \<open>
  No row of the store has the identifier \<open>p9\<close>, and \<open>getProduct\<close> returns \<open>null\<close>
  instead of failing.
\<close>

theorem getProduct_missing_row_no_failure:
  "byId (ascii ''p9'') (remote stocked) = []
   \<and> fst (getProduct memory (ascii ''p9'') stocked) = Inr None"
  by (simp add: getProduct_def await_def memory_def stocked_def single_def byId_def newRow_def
        ascii_def)

text \<open>
  Both cases on the sample store: \<open>p9\<close> matches no row, \<open>p1\<close> matches one row, which
  comes back with its two variants.
\<close>

theorem getProduct_returns_data_witness:
  "byId (ascii ''p9'') (remote stocked) = []
   \<and> fst (products_select_variants memory (ascii ''p9'') (remote stocked))
       = Inl \<lparr>message = ascii ''JSON object requested, multiple (or no) rows returned''\<rparr>
   \<and> fst (getProduct memory (ascii ''p9'') stocked) = Inr None
   \<and> byId (ascii ''p1'') (remote stocked)
       = [newRow (hat\<lparr>productImages := [imageUrl]\<rparr>) (ascii ''p1'') (ascii ''2024-01-01T00:00:00Z'')]
   \<and> fst (getProduct memory (ascii ''p1'') stocked)
       = Inr (Some ((newRow (hat\<lparr>productImages := [imageUrl]\<rparr>) (ascii ''p1'')
                       (ascii ''2024-01-01T00:00:00Z''))
                    \<lparr>variants := Some [\<lparr>variant_id = Some (ascii ''v1''), name = ascii ''Red'',
                                         stock = 5, price = 12\<rparr>,
                                        \<lparr>variant_id = Some (ascii ''v7''), name = ascii ''Blue'',
                                         stock = 2, price = 11\<rparr>]\<rparr>))"
proof -
  have none: "byId (ascii ''p9'') (remote stocked) = []"
    by (simp add: stocked_def byId_def newRow_def ascii_def)
  have one: "byId (ascii ''p1'') (remote stocked)
       = [newRow (hat\<lparr>productImages := [imageUrl]\<rparr>) (ascii ''p1'') (ascii ''2024-01-01T00:00:00Z'')]"
    by (simp add: stocked_def byId_def newRow_def)
  have miss: "fst (products_select_variants memory (ascii ''p9'') (remote stocked))
       = Inl \<lparr>message = ascii ''JSON object requested, multiple (or no) rows returned''\<rparr>"
    by (simp add: memory_def none single_def)
  have hit: "fst (products_select_variants memory (ascii ''p1'') (remote stocked))
       = Inr ((newRow (hat\<lparr>productImages := [imageUrl]\<rparr>) (ascii ''p1'')
                       (ascii ''2024-01-01T00:00:00Z''))
                    \<lparr>variants := Some [\<lparr>variant_id = Some (ascii ''v1''), name = ascii ''Red'',
                                         stock = 5, price = 12\<rparr>,
                                        \<lparr>variant_id = Some (ascii ''v7''), name = ascii ''Blue'',
                                         stock = 2, price = 11\<rparr>]\<rparr>)"
    by (simp add: memory_def one single_def) (simp add: stocked_def joined_def)
  from getProduct_returns_data [of memory "ascii ''p9''" stocked] miss
  have a: "fst (getProduct memory (ascii ''p9'') stocked) = Inr None" by blast
  from getProduct_returns_data [of memory "ascii ''p1''" stocked] hit
  have b: "fst (getProduct memory (ascii ''p1'') stocked) = Inr (Some ((newRow (hat\<lparr>productImages := [imageUrl]\<rparr>) (ascii ''p1'')
                       (ascii ''2024-01-01T00:00:00Z''))
                    \<lparr>variants := Some [\<lparr>variant_id = Some (ascii ''v1''), name = ascii ''Red'',
                                         stock = 5, price = 12\<rparr>,
                                        \<lparr>variant_id = Some (ascii ''v7''), name = ascii ''Blue'',
                                         stock = 2, price = 11\<rparr>]\<rparr>))" by blast
  from none miss a one b show ?thesis by blast
qed

lemma productFields_variants: "productFields (d\<lparr>variants := x\<rparr>) = productFields d"
  by (simp add: productFields_def)

lemma variantsToInsert_ignores_id:
  "variantsToInsert pid (map (\<lambda>v. v\<lparr>variant_id := f v\<rparr>) vs) = variantsToInsert pid vs"
  by (simp add: variantsToInsert_def)

text \<open>
  Claim C10. Every variant insert that \<open>updateProduct\<close> issues comes from a non-empty
  variant list and carries, for each variant in order, a row with the four properties
  \<open>product_id\<close>, \<open>name\<close>, \<open>stock\<close> and \<open>price\<close> and no identifier, \<open>product_id\<close> being
  the identifier of the updated product. The variant identifiers the client supplies
  have no influence on what \<open>updateProduct\<close> does.
\<close>

theorem updateProduct_inserted_rows:
  "(\<forall>rows. VariantsInsert rows
              \<in> set (drop (length (calls w)) (calls (snd (updateProduct sb pid productData w)))) \<longrightarrow>
       (\<exists>vs. variants productData = Some vs \<and> vs \<noteq> []
            \<and> rows = map (\<lambda>v. \<lparr>row_id = None, row_product_id = pid, row_name = name v,
                                row_stock = stock v, row_price = price v\<rparr>) vs))
   \<and> (\<forall>vs f. variants productData = Some vs \<longrightarrow>
         updateProduct sb pid (productData\<lparr>variants := Some (map (\<lambda>v. v\<lparr>variant_id := f v\<rparr>) vs)\<rparr>) w
           = updateProduct sb pid productData w)"
proof (intro conjI allI impI)
  fix rows
  assume "VariantsInsert rows
              \<in> set (drop (length (calls w)) (calls (snd (updateProduct sb pid productData w))))"
  then show "\<exists>vs. variants productData = Some vs \<and> vs \<noteq> []
            \<and> rows = map (\<lambda>v. \<lparr>row_id = None, row_product_id = pid, row_name = name v,
                                row_stock = stock v, row_price = price v\<rparr>) vs"
    by (auto simp: updateProduct_def await_def notify_def variantsToInsert_def
             split: prod.splits sum.splits option.splits if_splits)
next
  fix vs f
  assume "variants productData = Some vs"
  then show "updateProduct sb pid (productData\<lparr>variants := Some (map (\<lambda>v. v\<lparr>variant_id := f v\<rparr>) vs)\<rparr>) w
           = updateProduct sb pid productData w"
    by (simp add: updateProduct_def productFields_variants variantsToInsert_ignores_id
             split: prod.splits sum.splits option.splits)
qed

text \<open>
  On the sample store: the variant \<open>Blue\<close> arrives with the identifier \<open>v7\<close>, and
  the row inserted for it has none.
\<close>

theorem updateProduct_inserted_rows_witness:
  "calls (snd (updateProduct memory (ascii ''p1'') (hat\<lparr>variants := Some [red, blue]\<rparr>) stocked))
     = [ProductsUpdate (ascii ''p1'') hat, VariantsDelete (ascii ''p1''),
        VariantsInsert [\<lparr>row_id = None, row_product_id = ascii ''p1'', row_name = ascii ''Red'',
                         row_stock = 5, row_price = 12\<rparr>,
                        \<lparr>row_id = None, row_product_id = ascii ''p1'', row_name = ascii ''Blue'',
                         row_stock = 2, row_price = 11\<rparr>]]
   \<and> variant_id blue = Some (ascii ''v7'')
   \<and> updateProduct memory (ascii ''p1'')
        (hat\<lparr>variants := Some [red, blue\<lparr>variant_id := None\<rparr>]\<rparr>) stocked
       = updateProduct memory (ascii ''p1'') (hat\<lparr>variants := Some [red, blue]\<rparr>) stocked"
proof -
  let ?d = "hat\<lparr>variants := Some [red, blue]\<rparr>"
  let ?rows = "variantsToInsert (ascii ''p1'') [red, blue]"
  have f: "productFields ?d = hat"
    by (simp add: productFields_def hat_def)
  have c: "calls (snd (updateProduct memory (ascii ''p1'') ?d stocked))
     = [ProductsUpdate (ascii ''p1'') hat, VariantsDelete (ascii ''p1''), VariantsInsert ?rows]"
    by (simp add: updateProduct_def f await_def memory_def stocked_def single_def byId_def
          newRow_def)
  have c0: "calls stocked = []" by (simp add: stocked_def)
  have "VariantsInsert ?rows
          \<in> set (drop (length (calls stocked)) (calls (snd (updateProduct memory (ascii ''p1'') ?d stocked))))"
    by (simp add: c c0)
  with updateProduct_inserted_rows [of stocked memory "ascii ''p1''" ?d]
  have r: "?rows = [\<lparr>row_id = None, row_product_id = ascii ''p1'', row_name = ascii ''Red'',
                         row_stock = 5, row_price = 12\<rparr>,
                        \<lparr>row_id = None, row_product_id = ascii ''p1'', row_name = ascii ''Blue'',
                         row_stock = 2, row_price = 11\<rparr>]"
    by (auto simp: red_def blue_def)
  have v: "variants ?d = Some [red, blue]" by simp
  note same = updateProduct_inserted_rows [of stocked memory "ascii ''p1''" ?d,
      THEN conjunct2, rule_format, of "[red, blue]" "\<lambda>_. None"]
  have "red\<lparr>variant_id := None\<rparr> = red" by (simp add: red_def)
  with same v have i: "updateProduct memory (ascii ''p1'')
        (hat\<lparr>variants := Some [red, blue\<lparr>variant_id := None\<rparr>]\<rparr>) stocked
       = updateProduct memory (ascii ''p1'') ?d stocked"
    by simp
  have b: "variant_id blue = Some (ascii ''v7'')" by (simp add: blue_def)
  from c r b i show ?thesis by simp
qed

text \<open>
  What \<open>matchPath\<close> returns is what the regular expression captures: the key that
  follows the leftmost occurrence of \<open>productImage/\<close> whose rest, up to the end of the
  URL, is non-empty and has no line terminator; and it returns nothing only when the
  URL has no such occurrence. \<open>filePaths\<close> is the list of these keys, one for each
  image that has one, in the order of the images.
\<close>

lemma bucketSlash_not_Nil: "bucketSlash \<noteq> []"
  by (simp add: bucketSlash_def ascii_def)

lemma matchPath_Cons_hit:
  assumes a: "list_all (\<lambda>u. \<not> lineTerminator u) k" "k \<noteq> []"
    and e: "c # cs = bucketSlash @ k"
  shows "matchPath (c # cs) = Some k"
proof -
  have p: "prefix bucketSlash (c # cs)" unfolding e by simp
  have d: "drop (length bucketSlash) (c # cs) = k" unfolding e by simp
  show ?thesis by (simp only: matchPath.simps(2) p d a if_True simp_thms)
qed

lemma matchPath_Cons_miss:
  "\<not> (\<exists>k. c # cs = bucketSlash @ k \<and> k \<noteq> [] \<and> list_all (\<lambda>u. \<not> lineTerminator u) k) \<Longrightarrow>
     matchPath (c # cs) = matchPath cs"
proof -
  assume n: "\<not> (\<exists>k. c # cs = bucketSlash @ k \<and> k \<noteq> [] \<and> list_all (\<lambda>u. \<not> lineTerminator u) k)"
  have "\<not> (prefix bucketSlash (c # cs)
         \<and> drop (length bucketSlash) (c # cs) \<noteq> []
         \<and> list_all (\<lambda>u. \<not> lineTerminator u) (drop (length bucketSlash) (c # cs)))"
  proof
    assume a: "prefix bucketSlash (c # cs)
         \<and> drop (length bucketSlash) (c # cs) \<noteq> []
         \<and> list_all (\<lambda>u. \<not> lineTerminator u) (drop (length bucketSlash) (c # cs))"
    then have "c # cs = bucketSlash @ drop (length bucketSlash) (c # cs)"
      by (metis append_eq_conv_conj prefixE)
    with a n show False by blast
  qed
  then show ?thesis by (simp only: matchPath.simps(2) if_False)
qed

lemma matchPath_None:
  "matchPath url = None \<Longrightarrow> url = before @ bucketSlash @ k \<Longrightarrow>
     k = [] \<or> \<not> list_all (\<lambda>u. \<not> lineTerminator u) k"
proof (induction url arbitrary: before)
  case Nil
  then show ?case by (simp add: bucketSlash_not_Nil)
next
  case (Cons c cs)
  show ?case
  proof (cases before)
    case Nil
    show ?thesis
    proof (rule ccontr)
      assume "\<not> (k = [] \<or> \<not> list_all (\<lambda>u. \<not> lineTerminator u) k)"
      then have "matchPath (c # cs) = Some k"
        using Cons.prems(2) Nil by (intro matchPath_Cons_hit) simp_all
      with Cons.prems(1) show False by simp
    qed
  next
    case (Cons b before')
    with Cons.prems(2) have cs: "cs = before' @ bucketSlash @ k" by simp
    from Cons.prems(1) have "matchPath cs = None"
      by (simp split: if_splits)
    from Cons.IH [OF this cs] show ?thesis .
  qed
qed

lemma matchPath_leftmost:
  "matchPath url = Some key \<Longrightarrow>
     \<exists>before. url = before @ bucketSlash @ key
       \<and> (\<forall>b k. url = b @ bucketSlash @ k \<and> length b < length before \<longrightarrow>
             \<not> list_all (\<lambda>u. \<not> lineTerminator u) k)"
proof (induction url)
  case Nil
  then show ?case by simp
next
  case (Cons c cs)
  show ?case
  proof (cases "\<exists>k. c # cs = bucketSlash @ k \<and> k \<noteq> [] \<and> list_all (\<lambda>u. \<not> lineTerminator u) k")
    case True
    then obtain k where k: "c # cs = bucketSlash @ k" "k \<noteq> []"
      "list_all (\<lambda>u. \<not> lineTerminator u) k" by blast
    then have "matchPath (c # cs) = Some k" by (intro matchPath_Cons_hit)
    with Cons.prems have "key = k" by simp
    with k(1) have "c # cs = [] @ bucketSlash @ key
       \<and> (\<forall>b k. c # cs = b @ bucketSlash @ k \<and> length b < length ([]::jsstring) \<longrightarrow>
             \<not> list_all (\<lambda>u. \<not> lineTerminator u) k)"
      by simp
    then show ?thesis by blast
  next
    case False
    then have "matchPath (c # cs) = matchPath cs" by (rule matchPath_Cons_miss)
    with Cons.prems have m: "matchPath cs = Some key" by simp
    from Cons.IH [OF m] obtain before where
      b: "cs = before @ bucketSlash @ key"
      and l: "\<And>b k. cs = b @ bucketSlash @ k \<Longrightarrow> length b < length before \<Longrightarrow>
                \<not> list_all (\<lambda>u. \<not> lineTerminator u) k"
      by blast
    have "\<not> list_all (\<lambda>u. \<not> lineTerminator u) k"
      if u: "c # cs = b' @ bucketSlash @ k" and s: "length b' < length (c # before)" for b' k
    proof (cases b')
      case Nil
      with u have e: "c # cs = bucketSlash @ k" by simp
      have "k \<noteq> []"
      proof
        assume "k = []"
        with e have "length (c # cs) = length bucketSlash" by simp
        moreover from b have "length (c # cs) = Suc (length before + length bucketSlash + length key)"
          by simp
        ultimately show False by simp
      qed
      with e False show ?thesis by blast
    next
      case (Cons x b'')
      with u s have "cs = b'' @ bucketSlash @ k" "length b'' < length before" by simp_all
      then show ?thesis by (rule l)
    qed
    moreover from b have "c # cs = (c # before) @ bucketSlash @ key" by simp
    ultimately show ?thesis by blast
  qed
qed

lemma matchPath_key:
  "matchPath url = Some key \<Longrightarrow> key \<noteq> [] \<and> list_all (\<lambda>u. \<not> lineTerminator u) key"
proof (induction url)
  case Nil
  then show ?case by simp
next
  case (Cons c cs)
  then show ?case by (auto split: if_splits)
qed

lemma filePaths_map_filter: "filePaths imgs = List.map_filter matchPath imgs"
proof -
  have "(case matchPath url of None \<Rightarrow> None
          | Some path \<Rightarrow> if path = [] then None else Some path) = matchPath url" for url
    by (cases "matchPath url") (auto dest: matchPath_key)
  then show ?thesis by (simp add: filePaths_def)
qed

lemma filePaths_single: "matchPath url = Some key \<Longrightarrow> filePaths [url] = [key]"
  by (simp add: filePaths_map_filter List.map_filter_simps)

lemma filePaths_Nil [simp]: "filePaths [] = []"
  by (simp add: filePaths_def List.map_filter_simps)

text \<open>
  Claim C7. \<open>deleteProduct\<close> first fetches the image list of the product; when that
  succeeds it deletes the product row; when that succeeds too it returns
  \<open>{success: true}\<close> whatever the storage answers, after one removal request for
  the storage keys of the images (none when no image yields a key). A failed removal
  shows one warning and nothing else. The key of an image is what follows
  \<open>productImage/\<close> in its URL, and the keys removed are those of all the images that
  have one. A failed fetch or a failed row delete is thrown with the store's message,
  and nothing is requested after it. The store is left as the requests issued leave it.
\<close>

theorem deleteProduct_row_then_images:
  "(\<exists>rest. calls (snd (deleteProduct sb pid w)) = calls w @ ProductsSelectImages pid # rest)
   \<and> (\<forall>images. fst (products_select_images sb pid (remote w)) = Inr images \<longrightarrow>
        (\<exists>rest. calls (snd (deleteProduct sb pid w))
                   = calls w @ ProductsSelectImages pid # ProductsDelete pid # rest
           \<and> (fst (products_delete sb pid (snd (products_select_images sb pid (remote w)))) = None \<longrightarrow>
                 fst (deleteProduct sb pid w) = Inr \<lparr>success = True\<rparr>
               \<and> rest = (if filePaths (orEmpty images) = [] then []
                         else [StorageRemove (filePaths (orEmpty images))])
               \<and> toasts (snd (deleteProduct sb pid w))
                   = toasts w @
                     (if filePaths (orEmpty images) \<noteq> []
                         \<and> fst (storage_remove sb (filePaths (orEmpty images))
                                  (snd (products_delete sb pid
                                         (snd (products_select_images sb pid (remote w)))))) \<noteq> None
                      then [ToastWarning ProductDeletedSomeImagesNot] else []))))
   \<and> (\<forall>url key. matchPath url = Some key \<longrightarrow>
         filePaths [url] = [key] \<and> key \<noteq> [] \<and> (\<exists>before. url = before @ bucketSlash @ key))
   \<and> remote (snd (deleteProduct sb pid w))
       = served sb (drop (length (calls w)) (calls (snd (deleteProduct sb pid w)))) (remote w)
   \<and> (\<forall>imgs. filePaths imgs = List.map_filter matchPath imgs)
   \<and> (\<forall>url key. matchPath url = Some key \<longrightarrow>
         list_all (\<lambda>u. \<not> lineTerminator u) key
       \<and> (\<exists>before. url = before @ bucketSlash @ key
             \<and> (\<forall>b k. url = b @ bucketSlash @ k \<and> length b < length before \<longrightarrow>
                   \<not> list_all (\<lambda>u. \<not> lineTerminator u) k)))
   \<and> (\<forall>url before k. matchPath url = None \<and> url = before @ bucketSlash @ k \<longrightarrow>
         k = [] \<or> \<not> list_all (\<lambda>u. \<not> lineTerminator u) k)
   \<and> (\<forall>e. fst (products_select_images sb pid (remote w)) = Inl e \<longrightarrow>
         fst (deleteProduct sb pid w) = Inl (ThrownError (message e))
       \<and> calls (snd (deleteProduct sb pid w)) = calls w @ [ProductsSelectImages pid]
       \<and> toasts (snd (deleteProduct sb pid w)) = toasts w)
   \<and> (\<forall>images e.
         fst (products_select_images sb pid (remote w)) = Inr images
         \<and> fst (products_delete sb pid (snd (products_select_images sb pid (remote w)))) = Some e \<longrightarrow>
         fst (deleteProduct sb pid w) = Inl (ThrownError (message e))
       \<and> calls (snd (deleteProduct sb pid w))
           = calls w @ [ProductsSelectImages pid, ProductsDelete pid]
       \<and> toasts (snd (deleteProduct sb pid w)) = toasts w)"
proof (intro conjI allI impI)
  show "\<exists>rest. calls (snd (deleteProduct sb pid w)) = calls w @ ProductsSelectImages pid # rest"
    by (auto simp: deleteProduct_def await_def notify_def
             split: prod.splits sum.splits option.splits)
next
  fix images
  assume "fst (products_select_images sb pid (remote w)) = Inr images"
  then show "\<exists>rest. calls (snd (deleteProduct sb pid w))
                   = calls w @ ProductsSelectImages pid # ProductsDelete pid # rest
           \<and> (fst (products_delete sb pid (snd (products_select_images sb pid (remote w)))) = None \<longrightarrow>
                 fst (deleteProduct sb pid w) = Inr \<lparr>success = True\<rparr>
               \<and> rest = (if filePaths (orEmpty images) = [] then []
                         else [StorageRemove (filePaths (orEmpty images))])
               \<and> toasts (snd (deleteProduct sb pid w))
                   = toasts w @
                     (if filePaths (orEmpty images) \<noteq> []
                         \<and> fst (storage_remove sb (filePaths (orEmpty images))
                                  (snd (products_delete sb pid
                                         (snd (products_select_images sb pid (remote w)))))) \<noteq> None
                      then [ToastWarning ProductDeletedSomeImagesNot] else []))"
    by (auto simp: deleteProduct_def await_def notify_def orEmpty_def
             split: prod.splits sum.splits option.splits)
next
  fix url key
  assume m: "matchPath url = Some key"
  then show "filePaths [url] = [key]" by (rule filePaths_single)
  from matchPath_key [OF m] show "key \<noteq> []" by blast
  from matchPath_leftmost [OF m] show "\<exists>before. url = before @ bucketSlash @ key" by blast
next
  show "remote (snd (deleteProduct sb pid w))
       = served sb (drop (length (calls w)) (calls (snd (deleteProduct sb pid w)))) (remote w)"
    by (auto simp: deleteProduct_def await_def notify_def served_def
             split: prod.splits sum.splits option.splits)
next
  fix imgs
  show "filePaths imgs = List.map_filter matchPath imgs" by (rule filePaths_map_filter)
next
  fix url key
  assume m: "matchPath url = Some key"
  from matchPath_key [OF m] show "list_all (\<lambda>u. \<not> lineTerminator u) key" by blast
  from matchPath_leftmost [OF m]
  show "\<exists>before. url = before @ bucketSlash @ key
             \<and> (\<forall>b k. url = b @ bucketSlash @ k \<and> length b < length before \<longrightarrow>
                   \<not> list_all (\<lambda>u. \<not> lineTerminator u) k)" .
next
  fix url before k
  assume "matchPath url = None \<and> url = before @ bucketSlash @ k"
  then show "k = [] \<or> \<not> list_all (\<lambda>u. \<not> lineTerminator u) k"
    using matchPath_None by blast
next
  fix e
  assume "fst (products_select_images sb pid (remote w)) = Inl e"
  then show "fst (deleteProduct sb pid w) = Inl (ThrownError (message e))"
    "calls (snd (deleteProduct sb pid w)) = calls w @ [ProductsSelectImages pid]"
    "toasts (snd (deleteProduct sb pid w)) = toasts w"
    by (auto simp: deleteProduct_def await_def split: prod.splits sum.splits option.splits)
next
  fix images e
  assume "fst (products_select_images sb pid (remote w)) = Inr images
         \<and> fst (products_delete sb pid (snd (products_select_images sb pid (remote w)))) = Some e"
  then show "fst (deleteProduct sb pid w) = Inl (ThrownError (message e))"
    "calls (snd (deleteProduct sb pid w))
           = calls w @ [ProductsSelectImages pid, ProductsDelete pid]"
    "toasts (snd (deleteProduct sb pid w)) = toasts w"
    by (auto simp: deleteProduct_def await_def split: prod.splits sum.splits option.splits)
qed

lemma matchPath_imageUrl: "matchPath imageUrl = Some (ascii ''products/a.jpg'')"
  by (simp add: imageUrl_def ascii_def bucketSlash_def lineTerminator_def)

lemma matchPath_otherUrl: "matchPath otherUrl = Some (ascii ''products/b.png'')"
  by (simp add: otherUrl_def ascii_def bucketSlash_def lineTerminator_def)

lemma matchPath_foreignUrl: "matchPath foreignUrl = None"
  by (simp add: foreignUrl_def ascii_def bucketSlash_def)

text \<open>
  The scenario of the specification, with a storage that refuses the removal: the
  one image of product \<open>p1\<close> has the key \<open>products/a.jpg\<close>; the row is deleted, one
  removal is requested for that key, and the deletion succeeds with a warning, the
  stored object still being there. A product with three images, one of them not in the
  bucket: one removal for the two keys, after which the bucket holds neither. And an
  identifier the store does not have: the fetch fails, the failure is thrown and
  nothing is deleted.
\<close>

theorem deleteProduct_row_then_images_witness:
  "fst (products_select_images failingStorage (ascii ''p1'') (remote stocked)) = Inr (Some [imageUrl])
   \<and> matchPath imageUrl = Some (ascii ''products/a.jpg'')
   \<and> calls (snd (deleteProduct failingStorage (ascii ''p1'') stocked))
       = [ProductsSelectImages (ascii ''p1''), ProductsDelete (ascii ''p1''),
          StorageRemove [ascii ''products/a.jpg'']]
   \<and> fst (storage_remove failingStorage [ascii ''products/a.jpg'']
            (snd (products_delete failingStorage (ascii ''p1'')
                   (snd (products_select_images failingStorage (ascii ''p1'') (remote stocked))))))
       = Some \<lparr>message = ascii ''storage unavailable''\<rparr>
   \<and> fst (deleteProduct failingStorage (ascii ''p1'') stocked) = Inr \<lparr>success = True\<rparr>
   \<and> toasts (snd (deleteProduct failingStorage (ascii ''p1'') stocked))
       = [ToastWarning ProductDeletedSomeImagesNot]
   \<and> products_tbl (remote (snd (deleteProduct failingStorage (ascii ''p1'') stocked))) = []
   \<and> bucket (remote (snd (deleteProduct failingStorage (ascii ''p1'') stocked)))
       = [ascii ''products/a.jpg'']
   \<and> fst (products_select_images memory (ascii ''p1'') (remote gallery))
       = Inr (Some [imageUrl, foreignUrl, otherUrl])
   \<and> filePaths [imageUrl, foreignUrl, otherUrl]
       = [ascii ''products/a.jpg'', ascii ''products/b.png'']
   \<and> calls (snd (deleteProduct memory (ascii ''p1'') gallery))
       = [ProductsSelectImages (ascii ''p1''), ProductsDelete (ascii ''p1''),
          StorageRemove [ascii ''products/a.jpg'', ascii ''products/b.png'']]
   \<and> fst (deleteProduct memory (ascii ''p1'') gallery) = Inr \<lparr>success = True\<rparr>
   \<and> toasts (snd (deleteProduct memory (ascii ''p1'') gallery)) = []
   \<and> products_tbl (remote (snd (deleteProduct memory (ascii ''p1'') gallery))) = []
   \<and> bucket (remote (snd (deleteProduct memory (ascii ''p1'') gallery)))
       = [ascii ''products/z.gif'']
   \<and> fst (products_select_images memory (ascii ''p9'') (remote gallery))
       = Inl \<lparr>message = ascii ''JSON object requested, multiple (or no) rows returned''\<rparr>
   \<and> fst (deleteProduct memory (ascii ''p9'') gallery)
       = Inl (ThrownError (ascii ''JSON object requested, multiple (or no) rows returned''))
   \<and> calls (snd (deleteProduct memory (ascii ''p9'') gallery))
       = [ProductsSelectImages (ascii ''p9'')]"
proof -
  let ?sel = "products_select_images failingStorage (ascii ''p1'') (remote stocked)"
  have sel: "fst ?sel = Inr (Some [imageUrl])"
    by (simp add: failingStorage_def memory_def stocked_def single_def byId_def newRow_def)
  have del: "fst (products_delete failingStorage (ascii ''p1'') (snd ?sel)) = None"
    by (simp add: failingStorage_def memory_def)
  have paths: "filePaths (orEmpty (Some [imageUrl])) = [ascii ''products/a.jpg'']"
    by (simp add: orEmpty_def filePaths_single [OF matchPath_imageUrl])
  have rem: "fst (storage_remove failingStorage [ascii ''products/a.jpg'']
            (snd (products_delete failingStorage (ascii ''p1'') (snd ?sel))))
       = Some \<lparr>message = ascii ''storage unavailable''\<rparr>"
    by (simp add: failingStorage_def)
  have c: "calls stocked = []" "toasts stocked = []" by (simp_all add: stocked_def)
  note all = deleteProduct_row_then_images [of failingStorage "ascii ''p1''" stocked]
  note th = all [THEN conjunct2, THEN conjunct1, rule_format, OF sel]
  from th del paths rem
  have a: "calls (snd (deleteProduct failingStorage (ascii ''p1'') stocked))
       = [ProductsSelectImages (ascii ''p1''), ProductsDelete (ascii ''p1''),
          StorageRemove [ascii ''products/a.jpg'']]
     \<and> fst (deleteProduct failingStorage (ascii ''p1'') stocked) = Inr \<lparr>success = True\<rparr>
     \<and> toasts (snd (deleteProduct failingStorage (ascii ''p1'') stocked))
       = [ToastWarning ProductDeletedSomeImagesNot]"
    by (auto simp: c)
  from all have "remote (snd (deleteProduct failingStorage (ascii ''p1'') stocked))
       = served failingStorage
           (drop (length (calls stocked))
              (calls (snd (deleteProduct failingStorage (ascii ''p1'') stocked)))) (remote stocked)"
    by blast
  then have st: "remote (snd (deleteProduct failingStorage (ascii ''p1'') stocked))
       = served failingStorage [ProductsSelectImages (ascii ''p1''), ProductsDelete (ascii ''p1''),
          StorageRemove [ascii ''products/a.jpg'']] (remote stocked)"
    by (simp add: a c)
  have s1: "products_tbl (remote (snd (deleteProduct failingStorage (ascii ''p1'') stocked))) = []"
    "bucket (remote (snd (deleteProduct failingStorage (ascii ''p1'') stocked)))
       = [ascii ''products/a.jpg'']"
    unfolding st
    by (simp_all add: served_def failingStorage_def memory_def stocked_def single_def byId_def
          newRow_def)
  note allg = deleteProduct_row_then_images [of memory "ascii ''p1''" gallery]
  let ?selg = "products_select_images memory (ascii ''p1'') (remote gallery)"
  have selg: "fst ?selg = Inr (Some [imageUrl, foreignUrl, otherUrl])"
    by (simp add: memory_def gallery_def single_def byId_def newRow_def)
  have delg: "fst (products_delete memory (ascii ''p1'') (snd ?selg)) = None"
    by (simp add: memory_def)
  from allg have "filePaths [imageUrl, foreignUrl, otherUrl]
      = List.map_filter matchPath [imageUrl, foreignUrl, otherUrl]"
    by blast
  then have pg: "filePaths [imageUrl, foreignUrl, otherUrl]
       = [ascii ''products/a.jpg'', ascii ''products/b.png'']"
    by (simp add: List.map_filter_simps matchPath_imageUrl matchPath_foreignUrl matchPath_otherUrl)
  have remg: "fst (storage_remove memory [ascii ''products/a.jpg'', ascii ''products/b.png'']
            (snd (products_delete memory (ascii ''p1'') (snd ?selg)))) = None"
    by (simp add: memory_def)
  have cg: "calls gallery = []" "toasts gallery = []" by (simp_all add: gallery_def)
  note thg = allg [THEN conjunct2, THEN conjunct1, rule_format, OF selg]
  from thg delg pg remg
  have g: "calls (snd (deleteProduct memory (ascii ''p1'') gallery))
       = [ProductsSelectImages (ascii ''p1''), ProductsDelete (ascii ''p1''),
          StorageRemove [ascii ''products/a.jpg'', ascii ''products/b.png'']]
     \<and> fst (deleteProduct memory (ascii ''p1'') gallery) = Inr \<lparr>success = True\<rparr>
     \<and> toasts (snd (deleteProduct memory (ascii ''p1'') gallery)) = []"
    by (auto simp: cg orEmpty_def)
  from allg have "remote (snd (deleteProduct memory (ascii ''p1'') gallery))
       = served memory
           (drop (length (calls gallery))
              (calls (snd (deleteProduct memory (ascii ''p1'') gallery)))) (remote gallery)"
    by blast
  then have stg: "remote (snd (deleteProduct memory (ascii ''p1'') gallery))
       = served memory [ProductsSelectImages (ascii ''p1''), ProductsDelete (ascii ''p1''),
          StorageRemove [ascii ''products/a.jpg'', ascii ''products/b.png'']] (remote gallery)"
    by (simp add: g cg)
  have s2: "products_tbl (remote (snd (deleteProduct memory (ascii ''p1'') gallery))) = []"
    "bucket (remote (snd (deleteProduct memory (ascii ''p1'') gallery)))
       = [ascii ''products/z.gif'']"
    unfolding stg
    by (simp_all add: served_def memory_def gallery_def single_def byId_def newRow_def ascii_def)
  have miss: "fst (products_select_images memory (ascii ''p9'') (remote gallery))
       = Inl \<lparr>message = ascii ''JSON object requested, multiple (or no) rows returned''\<rparr>"
    by (simp add: memory_def gallery_def single_def byId_def newRow_def ascii_def)
  note allm = deleteProduct_row_then_images [of memory "ascii ''p9''" gallery]
  from allm miss
  have m: "fst (deleteProduct memory (ascii ''p9'') gallery)
       = Inl (ThrownError (ascii ''JSON object requested, multiple (or no) rows returned''))
     \<and> calls (snd (deleteProduct memory (ascii ''p9'') gallery))
       = [ProductsSelectImages (ascii ''p9'')]"
    by (auto simp: cg)
  from sel matchPath_imageUrl a rem s1 selg pg g s2 miss m show ?thesis by simp
qed

section \<open>Image list of the product form\<close>

lemma filter_index_snoc:
  "filter_index P (xs @ [x]) = filter_index P xs @ (if P (int (length xs)) then [x] else [])"
  by (simp add: filter_index_def)

lemma filter_index_Nil [simp]: "filter_index P [] = []"
  by (simp add: filter_index_def)

lemma filter_index_outside:
  "i < 0 \<or> int (length xs) \<le> i \<Longrightarrow> filter_index (\<lambda>j. j \<noteq> i) xs = xs"
  by (induction xs rule: rev_induct) (auto simp: filter_index_snoc)

lemma filter_index_inside:
  "0 \<le> i \<Longrightarrow> i < int (length xs) \<Longrightarrow>
     filter_index (\<lambda>j. j \<noteq> i) xs = take (nat i) xs @ drop (Suc (nat i)) xs"
proof (induction xs rule: rev_induct)
  case Nil
  then show ?case by simp
next
  case (snoc x xs)
  show ?case
  proof (cases "i < int (length xs)")
    case True
    with snoc have "filter_index (\<lambda>j. j \<noteq> i) xs = take (nat i) xs @ drop (Suc (nat i)) xs"
      by simp
    with True snoc.prems show ?thesis
      by (simp add: filter_index_snoc)
  next
    case False
    with snoc.prems have i: "i = int (length xs)" by simp
    then have "filter_index (\<lambda>j. j \<noteq> i) xs = xs"
      by (intro filter_index_outside) simp
    with i show ?thesis by (simp add: filter_index_snoc)
  qed
qed

lemma indexOf_first: "x \<notin> set as \<Longrightarrow> indexOf (as @ x # bs) x = int (length as)"
proof (induction as)
  case Nil
  then show ?case by simp
next
  case (Cons a as)
  then have "indexOf (as @ x # bs) x = int (length as)" by simp
  with Cons.prems show ?case by auto
qed

lemma blobUrls_split:
  assumes "n < length imgs" "startsWith (imgs ! n) blobPrefix"
  shows "blobUrls imgs = blobUrls (take n imgs) @ (imgs ! n) # blobUrls (drop (Suc n) imgs)"
proof -
  have "imgs = take n imgs @ (imgs ! n) # drop (Suc n) imgs"
    using assms(1) by (simp add: id_take_nth_drop)
  then have "blobUrls imgs = blobUrls (take n imgs @ (imgs ! n) # drop (Suc n) imgs)"
    by simp
  with assms(2) show ?thesis by (simp add: blobUrls_def)
qed

lemma blobIndex_position:
  assumes "n < length imgs" "startsWith (imgs ! n) blobPrefix" "distinct (blobUrls imgs)"
  shows "indexOf (blobUrls imgs) (imgs ! n) = int (length (blobUrls (take n imgs)))"
proof -
  note s = blobUrls_split [OF assms(1,2)]
  from assms(3) have "imgs ! n \<notin> set (blobUrls (take n imgs))"
    by (subst (asm) s) auto
  then show ?thesis
    by (subst s) (rule indexOf_first)
qed

lemma removeImage_images:
  "formImages (removeImage i st) = filter_index (\<lambda>j. j \<noteq> i) (formImages st)"
  by (simp add: removeImage_def Let_def)

lemma removeImage_persisted:
  assumes "0 \<le> i" "i < int (length (formImages st))"
    "\<not> startsWith (formImages st ! nat i) blobPrefix"
  shows "pendingFiles (removeImage i st) = pendingFiles st"
    and "revoked (removeImage i st) = revoked st"
  using assms by (simp_all add: removeImage_def Let_def at_index_def)

lemma removeImage_preview:
  assumes "0 \<le> i" "i < int (length (formImages st))"
    "startsWith (formImages st ! nat i) blobPrefix"
  shows "pendingFiles (removeImage i st)
           = filter_index (\<lambda>j. j \<noteq> indexOf (blobUrls (formImages st)) (formImages st ! nat i))
               (pendingFiles st)"
    and "revoked (removeImage i st) = revoked st @ [formImages st ! nat i]"
proof -
  have "indexOf (blobUrls (formImages st)) (formImages st ! nat i) = - 1
        \<Longrightarrow> filter_index (\<lambda>j. j \<noteq> indexOf (blobUrls (formImages st)) (formImages st ! nat i))
               (pendingFiles st) = pendingFiles st"
    by (intro filter_index_outside) simp
  with assms show "pendingFiles (removeImage i st)
           = filter_index (\<lambda>j. j \<noteq> indexOf (blobUrls (formImages st)) (formImages st ! nat i))
               (pendingFiles st)"
    by (simp add: removeImage_def Let_def at_index_def)
  from assms show "revoked (removeImage i st) = revoked st @ [formImages st ! nat i]"
    by (simp add: removeImage_def Let_def at_index_def)
qed

text \<open>
  Claim C9. For an index that is negative or at least the length of the image list,
  \<open>removeImage\<close> changes nothing: the image list, the pending files and the released
  references are what they were. The function is total and has no failing branch.
\<close>

theorem removeImage_outside:
  "i < 0 \<or> int (length (formImages st)) \<le> i \<Longrightarrow> removeImage i st = st"
proof -
  assume o: "i < 0 \<or> int (length (formImages st)) \<le> i"
  then have "at_index (formImages st) i = None"
    by (auto simp: at_index_def)
  moreover from o have "filter_index (\<lambda>j. j \<noteq> i) (formImages st) = formImages st"
    by (rule filter_index_outside)
  ultimately show ?thesis
    by (simp add: removeImage_def Let_def)
qed

text \<open>
  Claim C6. For an index inside the image list, \<open>removeImage\<close> removes exactly the entry
  at that index. When the entry is a stored URL the pending files are unchanged. When
  it is a preview, and the state is one the controller keeps (\<open>previewsMatch\<close>), the
  pending file at the same position among the previews is removed and no other, so
  both lists lose exactly one entry; the entries that are not previews are all still
  there, in order; the preview reference is released; and the state is again one the
  controller keeps.
\<close>

theorem removeImage_inside:
  "0 \<le> i \<and> i < int (length (formImages st)) \<longrightarrow>
       formImages (removeImage i st)
         = take (nat i) (formImages st) @ drop (Suc (nat i)) (formImages st)
     \<and> length (formImages (removeImage i st)) + 1 = length (formImages st)
     \<and> (\<not> startsWith (formImages st ! nat i) blobPrefix \<longrightarrow>
           pendingFiles (removeImage i st) = pendingFiles st
         \<and> revoked (removeImage i st) = revoked st)
     \<and> (startsWith (formImages st ! nat i) blobPrefix \<and> previewsMatch st \<longrightarrow>
           pendingFiles (removeImage i st)
             = take (length (blobUrls (take (nat i) (formImages st)))) (pendingFiles st)
               @ drop (Suc (length (blobUrls (take (nat i) (formImages st))))) (pendingFiles st)
         \<and> length (pendingFiles (removeImage i st)) + 1 = length (pendingFiles st)
         \<and> filter (\<lambda>img. \<not> startsWith img blobPrefix) (formImages (removeImage i st))
             = filter (\<lambda>img. \<not> startsWith img blobPrefix) (formImages st)
         \<and> revoked (removeImage i st) = revoked st @ [formImages st ! nat i]
         \<and> previewsMatch (removeImage i st))"
proof (intro impI, elim conjE)
  let ?imgs = "formImages st"
  let ?n = "nat i"
  let ?k = "length (blobUrls (take ?n ?imgs))"
  assume i: "0 \<le> i" "i < int (length ?imgs)"
  then have n: "?n < length ?imgs" by simp
  have imgs: "formImages (removeImage i st) = take ?n ?imgs @ drop (Suc ?n) ?imgs"
    using i by (simp add: removeImage_images filter_index_inside)
  have len: "length (formImages (removeImage i st)) + 1 = length ?imgs"
    using n by (simp add: imgs)
  have persisted: "\<not> startsWith (?imgs ! ?n) blobPrefix \<longrightarrow>
           pendingFiles (removeImage i st) = pendingFiles st
         \<and> revoked (removeImage i st) = revoked st"
    using i by (simp add: removeImage_persisted)
  have preview: "pendingFiles (removeImage i st)
             = take ?k (pendingFiles st) @ drop (Suc ?k) (pendingFiles st)
         \<and> length (pendingFiles (removeImage i st)) + 1 = length (pendingFiles st)
         \<and> filter (\<lambda>img. \<not> startsWith img blobPrefix) (formImages (removeImage i st))
             = filter (\<lambda>img. \<not> startsWith img blobPrefix) ?imgs
         \<and> revoked (removeImage i st) = revoked st @ [?imgs ! ?n]
         \<and> previewsMatch (removeImage i st)"
    if b: "startsWith (?imgs ! ?n) blobPrefix" and m: "previewsMatch st"
  proof -
    from m have d: "distinct (blobUrls ?imgs)"
      and l: "length (pendingFiles st) = length (blobUrls ?imgs)"
      by (simp_all add: previewsMatch_def)
    note s = blobUrls_split [OF n b]
    have pos: "indexOf (blobUrls ?imgs) (?imgs ! ?n) = int ?k"
      by (rule blobIndex_position [OF n b d])
    have k: "?k < length (pendingFiles st)"
      unfolding l by (subst s) simp
    have p: "pendingFiles (removeImage i st)
             = take ?k (pendingFiles st) @ drop (Suc ?k) (pendingFiles st)"
      using i b k by (simp add: removeImage_preview(1) pos filter_index_inside)
    have pl: "length (pendingFiles (removeImage i st)) + 1 = length (pendingFiles st)"
      using k by (simp add: p)
    have "?imgs = take ?n ?imgs @ (?imgs ! ?n) # drop (Suc ?n) ?imgs"
      using n by (simp add: id_take_nth_drop)
    then have "filter (\<lambda>img. \<not> startsWith img blobPrefix) ?imgs
        = filter (\<lambda>img. \<not> startsWith img blobPrefix)
            (take ?n ?imgs @ (?imgs ! ?n) # drop (Suc ?n) ?imgs)"
      by simp
    with b have keep: "filter (\<lambda>img. \<not> startsWith img blobPrefix) (formImages (removeImage i st))
             = filter (\<lambda>img. \<not> startsWith img blobPrefix) ?imgs"
      by (simp add: imgs)
    have r: "revoked (removeImage i st) = revoked st @ [?imgs ! ?n]"
      using i b by (simp add: removeImage_preview(2))
    have b': "blobUrls (formImages (removeImage i st))
        = blobUrls (take ?n ?imgs) @ blobUrls (drop (Suc ?n) ?imgs)"
      by (simp add: imgs blobUrls_def)
    from d have "distinct (blobUrls (formImages (removeImage i st)))"
      unfolding b' by (subst (asm) s) auto
    moreover have "length (pendingFiles (removeImage i st))
        = length (blobUrls (formImages (removeImage i st)))"
    proof -
      have "length (blobUrls ?imgs) = Suc (length (blobUrls (formImages (removeImage i st))))"
        unfolding b' by (subst s) simp
      with pl l show ?thesis by simp
    qed
    ultimately have "previewsMatch (removeImage i st)"
      by (simp add: previewsMatch_def)
    with p pl keep r show ?thesis by simp
  qed
  from imgs len persisted preview
  show "formImages (removeImage i st) = take ?n ?imgs @ drop (Suc ?n) ?imgs
     \<and> length (formImages (removeImage i st)) + 1 = length ?imgs
     \<and> (\<not> startsWith (?imgs ! ?n) blobPrefix \<longrightarrow>
           pendingFiles (removeImage i st) = pendingFiles st
         \<and> revoked (removeImage i st) = revoked st)
     \<and> (startsWith (?imgs ! ?n) blobPrefix \<and> previewsMatch st \<longrightarrow>
           pendingFiles (removeImage i st)
             = take ?k (pendingFiles st) @ drop (Suc ?k) (pendingFiles st)
         \<and> length (pendingFiles (removeImage i st)) + 1 = length (pendingFiles st)
         \<and> filter (\<lambda>img. \<not> startsWith img blobPrefix) (formImages (removeImage i st))
             = filter (\<lambda>img. \<not> startsWith img blobPrefix) ?imgs
         \<and> revoked (removeImage i st) = revoked st @ [?imgs ! ?n]
         \<and> previewsMatch (removeImage i st))"
    by blast
qed

text \<open>
  How the controller establishes and keeps \<open>previewsMatch\<close>: it holds for a form whose
  images are all stored ones and that has no pending file, and selecting files keeps it
  as long as the new references are new.
\<close>

lemma previewsMatch_initial:
  "\<forall>img\<in>set imgs. \<not> startsWith img blobPrefix \<Longrightarrow>
     previewsMatch \<lparr>formImages = imgs, pendingFiles = [], revoked = []\<rparr>"
  by (simp add: previewsMatch_def blobUrls_def filter_empty_conv)

lemma previewsMatch_handleImageSelect:
  assumes "previewsMatch st"
    and "\<forall>u\<in>set (map snd fs). startsWith u blobPrefix"
    and "distinct (map snd fs)"
    and "set (map snd fs) \<inter> set (formImages st) = {}"
  shows "previewsMatch (handleImageSelect (Some fs) st)"
proof -
  have all: "blobUrls (map snd fs) = map snd fs"
    using assms(2) by (simp add: blobUrls_def)
  have "blobUrls (formImages st @ map snd fs) = blobUrls (formImages st) @ map snd fs"
    using all by (simp add: blobUrls_def)
  moreover have "set (blobUrls (formImages st)) \<subseteq> set (formImages st)"
    by (simp add: blobUrls_def)
  ultimately show ?thesis
    using assms(1,3,4)
    by (auto simp: previewsMatch_def handleImageSelect_def)
qed

lemma sample_previews:
  "\<not> startsWith imageUrl blobPrefix"
  "startsWith (ascii ''blob:http://localhost:5173/1'') blobPrefix"
  "startsWith (ascii ''blob:http://localhost:5173/2'') blobPrefix"
  by (simp_all add: startsWith_def blobPrefix_def imageUrl_def ascii_def)

lemma sample_previewsMatch: "previewsMatch sampleForm"
  by (simp add: previewsMatch_def sampleForm_def blobUrls_def sample_previews)
     (simp add: ascii_def)

text \<open>
  On the sample form: removing the second preview (index 2) leaves the stored image
  and the first preview, with the first file pending; removing the stored image
  (index 0) leaves both previews and both files.
\<close>

theorem removeImage_inside_witness:
  "previewsMatch sampleForm
   \<and> startsWith (formImages sampleForm ! nat 2) blobPrefix
   \<and> formImages (removeImage 2 sampleForm) = [imageUrl, ascii ''blob:http://localhost:5173/1'']
   \<and> pendingFiles (removeImage 2 sampleForm) = [''one.png'']
   \<and> \<not> startsWith (formImages sampleForm ! nat 0) blobPrefix
   \<and> formImages (removeImage 0 sampleForm)
       = [ascii ''blob:http://localhost:5173/1'', ascii ''blob:http://localhost:5173/2'']
   \<and> pendingFiles (removeImage 0 sampleForm) = [''one.png'', ''two.png'']"
proof -
  have two: "nat 2 = Suc (Suc 0)" by simp
  have r: "(0::int) \<le> 2 \<and> 2 < int (length (formImages sampleForm))"
    "(0::int) \<le> 0 \<and> 0 < int (length (formImages sampleForm))"
    by (simp_all add: sampleForm_def)
  have b: "startsWith (formImages sampleForm ! nat 2) blobPrefix"
    by (simp add: sampleForm_def two sample_previews)
  have p: "\<not> startsWith (formImages sampleForm ! nat 0) blobPrefix"
    by (simp add: sampleForm_def sample_previews)
  from removeImage_inside [of 2 sampleForm] r(1) b sample_previewsMatch
  have "formImages (removeImage 2 sampleForm)
          = take (nat 2) (formImages sampleForm) @ drop (Suc (nat 2)) (formImages sampleForm)
      \<and> pendingFiles (removeImage 2 sampleForm)
          = take (length (blobUrls (take (nat 2) (formImages sampleForm)))) (pendingFiles sampleForm)
            @ drop (Suc (length (blobUrls (take (nat 2) (formImages sampleForm)))))
                (pendingFiles sampleForm)"
    by blast
  then have a: "formImages (removeImage 2 sampleForm)
                  = [imageUrl, ascii ''blob:http://localhost:5173/1'']
      \<and> pendingFiles (removeImage 2 sampleForm) = [''one.png'']"
    by (simp add: two sampleForm_def blobUrls_def sample_previews)
  from removeImage_inside [of 0 sampleForm] r(2) p
  have "formImages (removeImage 0 sampleForm)
          = take (nat 0) (formImages sampleForm) @ drop (Suc (nat 0)) (formImages sampleForm)
      \<and> pendingFiles (removeImage 0 sampleForm) = pendingFiles sampleForm"
    by blast
  then have c: "formImages (removeImage 0 sampleForm)
       = [ascii ''blob:http://localhost:5173/1'', ascii ''blob:http://localhost:5173/2'']
     \<and> pendingFiles (removeImage 0 sampleForm) = [''one.png'', ''two.png'']"
    by (simp add: sampleForm_def)
  from sample_previewsMatch b a p c show ?thesis by blast
qed

text \<open>
  On the sample form, which has three images: index 3 and index -1.
\<close>

theorem removeImage_outside_witness:
  "int (length (formImages sampleForm)) \<le> 3
   \<and> removeImage 3 sampleForm = sampleForm
   \<and> removeImage (- 1) sampleForm = sampleForm"
proof -
  have l: "int (length (formImages sampleForm)) \<le> 3"
    by (simp add: sampleForm_def)
  from l have "removeImage 3 sampleForm = sampleForm"
    by (intro removeImage_outside) simp
  moreover have "removeImage (- 1) sampleForm = sampleForm"
    by (intro removeImage_outside) simp
  ultimately show ?thesis using l by simp
qed

lemma existingUrls_idem: "existingUrls (existingUrls xs) = existingUrls xs"
  by (simp add: existingUrls_def)

text \<open>
  Claim C5. The reconciled image list is the entries of the current list that contain
  the storage domain, in their order, followed by the uploaded URLs in theirs; an
  entry that does not contain the storage domain, as a local preview reference, is
  not kept. With nothing uploaded, a list whose entries all contain the storage domain
  is returned unchanged, and reconciling twice is reconciling once. The reconciled
  list is the image list handed to the repository, in both modes.
\<close>

theorem allImageUrls_reconciles:
  "allImageUrls currentImages uploadedUrls
     = filter (\<lambda>img. includes_js img storageDomain) currentImages @ uploadedUrls
   \<and> (\<forall>img\<in>set currentImages.
         \<not> includes_js img storageDomain \<longrightarrow> img \<notin> set (existingUrls currentImages))
   \<and> ((\<forall>img\<in>set currentImages. includes_js img storageDomain) \<longrightarrow>
         allImageUrls currentImages [] = currentImages)
   \<and> allImageUrls (allImageUrls currentImages []) [] = allImageUrls currentImages []
   \<and> (case submission mode productId data currentImages uploadedUrls of
         Update pid d \<Rightarrow> productImages d = allImageUrls currentImages uploadedUrls
       | Create d vs \<Rightarrow> productImages d = allImageUrls currentImages uploadedUrls)"
proof (intro conjI)
  show "allImageUrls currentImages uploadedUrls
     = filter (\<lambda>img. includes_js img storageDomain) currentImages @ uploadedUrls"
    by (simp add: allImageUrls_def existingUrls_def)
  show "\<forall>img\<in>set currentImages.
         \<not> includes_js img storageDomain \<longrightarrow> img \<notin> set (existingUrls currentImages)"
    by (simp add: existingUrls_def)
  show "(\<forall>img\<in>set currentImages. includes_js img storageDomain) \<longrightarrow>
         allImageUrls currentImages [] = currentImages"
    by (simp add: allImageUrls_def existingUrls_def)
  show "allImageUrls (allImageUrls currentImages []) [] = allImageUrls currentImages []"
    by (simp add: allImageUrls_def existingUrls_idem)
  show "case submission mode productId data currentImages uploadedUrls of
         Update pid d \<Rightarrow> productImages d = allImageUrls currentImages uploadedUrls
       | Create d vs \<Rightarrow> productImages d = allImageUrls currentImages uploadedUrls"
    by (simp add: submission_def Let_def split: option.splits)
qed

lemma sample_persisted:
  "includes_js imageUrl storageDomain"
  "includes_js (ascii ''https://x.supabase.co/n.jpg'') storageDomain"
  "\<not> includes_js (ascii ''blob:http://localhost:5173/1'') storageDomain"
  "\<not> includes_js (ascii ''blob:http://localhost:5173/2'') storageDomain"
  by (simp_all add: includes_js_def storageDomain_def imageUrl_def ascii_def sublist_Cons_right)

text \<open>
  On the sample form, with one uploaded URL: the stored image and the uploaded URL are
  kept, the previews are not; the result, reconciled again with nothing uploaded, is
  unchanged.
\<close>

theorem allImageUrls_reconciles_witness:
  "\<not> includes_js (ascii ''blob:http://localhost:5173/1'') storageDomain
   \<and> allImageUrls (formImages sampleForm) [ascii ''https://x.supabase.co/n.jpg'']
       = [imageUrl, ascii ''https://x.supabase.co/n.jpg'']
   \<and> ascii ''blob:http://localhost:5173/1'' \<notin> set (existingUrls (formImages sampleForm))
   \<and> includes_js imageUrl storageDomain
   \<and> includes_js (ascii ''https://x.supabase.co/n.jpg'') storageDomain
   \<and> allImageUrls [imageUrl, ascii ''https://x.supabase.co/n.jpg''] []
       = [imageUrl, ascii ''https://x.supabase.co/n.jpg'']"
proof -
  note th = allImageUrls_reconciles [of "formImages sampleForm"
      "[ascii ''https://x.supabase.co/n.jpg'']" Create_mode None hat]
  from th have "allImageUrls (formImages sampleForm) [ascii ''https://x.supabase.co/n.jpg'']
      = filter (\<lambda>img. includes_js img storageDomain) (formImages sampleForm)
        @ [ascii ''https://x.supabase.co/n.jpg'']"
    by (rule conjunct1)
  then have a: "allImageUrls (formImages sampleForm) [ascii ''https://x.supabase.co/n.jpg'']
       = [imageUrl, ascii ''https://x.supabase.co/n.jpg'']"
    by (simp add: sampleForm_def sample_persisted)
  have m: "ascii ''blob:http://localhost:5173/1'' \<in> set (formImages sampleForm)"
    by (simp add: sampleForm_def)
  from th m sample_persisted(3)
  have b: "ascii ''blob:http://localhost:5173/1'' \<notin> set (existingUrls (formImages sampleForm))"
    by blast
  note th2 = allImageUrls_reconciles [of "[imageUrl, ascii ''https://x.supabase.co/n.jpg'']"
      "[]" Create_mode None hat]
  have "\<forall>img\<in>set [imageUrl, ascii ''https://x.supabase.co/n.jpg'']. includes_js img storageDomain"
    by (simp add: sample_persisted)
  with th2 have c: "allImageUrls [imageUrl, ascii ''https://x.supabase.co/n.jpg''] []
       = [imageUrl, ascii ''https://x.supabase.co/n.jpg'']"
    by blast
  from sample_persisted a b c show ?thesis by blast
qed

section \<open>Filter and sort of the product list\<close>

lemma mset_insert_by: "mset (insert_by cmp x xs) = add_mset x (mset xs)"
  by (induction xs) auto

lemma mset_sort_by: "mset (sort_by cmp xs) = mset xs"
  by (induction xs) (simp_all add: sort_by_def mset_insert_by)

lemma set_sort_by: "set (sort_by cmp xs) = set xs"
  by (metis mset_sort_by set_mset_mset)

lemma trim_Nil_iff: "(trim s = []) = list_all whiteSpace s"
proof
  assume "list_all whiteSpace s"
  then have "dropWhile whiteSpace s = []"
    by (auto simp: list_all_iff dest: set_dropWhileD)
  then show "trim s = []" by (simp only: trim_def rev.simps dropWhile.simps)
next
  assume t: "trim s = []"
  show "list_all whiteSpace s"
  proof (rule ccontr)
    assume "\<not> list_all whiteSpace s"
    then have ne: "dropWhile whiteSpace s \<noteq> []"
      by (simp add: list_all_iff)
    then have "\<not> whiteSpace (hd (dropWhile whiteSpace s))"
      by (rule hd_dropWhile)
    moreover from ne have "hd (dropWhile whiteSpace s) \<in> set (rev (dropWhile whiteSpace s))"
      by simp
    ultimately have "dropWhile whiteSpace (rev (dropWhile whiteSpace s)) \<noteq> []"
      by (metis dropWhile_eq_Nil_conv)
    with t show False by (simp add: trim_def)
  qed
qed

lemma filterStage_filter:
  "filterStage rt ps searchTerm filterCategory
     = filter (\<lambda>p. (list_all whiteSpace searchTerm
                      \<or> includes_js (toLowerCase rt (productName p)) (toLowerCase rt searchTerm))
                  \<and> (filterCategory = allTags \<or> productTags p = filterCategory)) ps"
  by (simp add: filterStage_def Let_def trim_Nil_iff)

text \<open>
  Claim C8, as the code has it. The filter keeps, in their order, exactly the products
  whose lower-cased name contains the lower-cased search term, a search term made of
  white space only (or empty) keeping every name, and whose tag equals the selected
  tag, the selection "all" keeping every tag. The list shown is a rearrangement of the
  filtered list, and so a part of the fetched collection; with no collection it is
  empty.
\<close>

theorem filteredProducts_keeps:
  "filterStage rt ps searchTerm filterCategory
     = filter (\<lambda>p. (list_all whiteSpace searchTerm
                      \<or> includes_js (toLowerCase rt (productName p)) (toLowerCase rt searchTerm))
                  \<and> (filterCategory = allTags \<or> productTags p = filterCategory)) ps
   \<and> mset (filteredProducts rt (Some ps) searchTerm filterCategory sortKey sortAsc)
       = mset (filterStage rt ps searchTerm filterCategory)
   \<and> filteredProducts rt None searchTerm filterCategory sortKey sortAsc = []
   \<and> mset (filteredProducts rt (Some ps) searchTerm filterCategory sortKey sortAsc) \<subseteq># mset ps"
proof (intro conjI)
  show f: "filterStage rt ps searchTerm filterCategory
     = filter (\<lambda>p. (list_all whiteSpace searchTerm
                      \<or> includes_js (toLowerCase rt (productName p)) (toLowerCase rt searchTerm))
                  \<and> (filterCategory = allTags \<or> productTags p = filterCategory)) ps"
    by (rule filterStage_filter)
  show m: "mset (filteredProducts rt (Some ps) searchTerm filterCategory sortKey sortAsc)
       = mset (filterStage rt ps searchTerm filterCategory)"
    by (cases ps) (simp_all add: filteredProducts_def mset_sort_by filterStage_def)
  show "filteredProducts rt None searchTerm filterCategory sortKey sortAsc = []"
    by (simp add: filteredProducts_def)
  show "mset (filteredProducts rt (Some ps) searchTerm filterCategory sortKey sortAsc) \<subseteq># mset ps"
    unfolding m f by simp
qed

lemma sample_names:
  "asciiLower (ascii ''Hat'') = ascii ''hat''"
  "asciiLower (ascii ''Cap'') = ascii ''cap''"
  "asciiLower (ascii ''hA'') = ascii ''ha''"
  "asciiLower (ascii '' '') = ascii '' ''"
  by (simp_all add: asciiLower_def ascii_def)

lemma blank_space: "list_all whiteSpace (ascii '' '')"
  by (simp add: whiteSpace_def ascii_def)

lemma sort_by_single: "sort_by cmp [x] = [x]"
  by (simp add: sort_by_def)

text \<open>
  The search term is one space. The name \<open>Hat\<close> does not contain a space, and the
  product is kept.
\<close>

theorem filteredProducts_blank_search_keeps_all:
  "\<not> includes_js (toLowerCase sampleRuntime (productName hatRow))
                  (toLowerCase sampleRuntime (ascii '' ''))
   \<and> filteredProducts sampleRuntime (Some [hatRow]) (ascii '' '') allTags Key_created_at False
       = [hatRow]"
proof -
  have "\<not> includes_js (ascii ''hat'') (ascii '' '')"
    by (simp add: includes_js_def ascii_def sublist_Cons_right)
  then have a: "\<not> includes_js (toLowerCase sampleRuntime (productName hatRow))
                  (toLowerCase sampleRuntime (ascii '' ''))"
    by (simp add: sampleRuntime_def hatRow_def newRow_def hat_def sample_names)
  have "filterStage sampleRuntime [hatRow] (ascii '' '') allTags = [hatRow]"
    by (simp add: filterStage_filter blank_space)
  then have "filteredProducts sampleRuntime (Some [hatRow]) (ascii '' '') allTags Key_created_at False
       = [hatRow]"
    by (simp add: filteredProducts_def sort_by_single)
  with a show ?thesis by simp
qed

text \<open>
  On the two sample products: the search term \<open>hA\<close> keeps \<open>Hat\<close>, the tag \<open>Sale\<close> keeps
  \<open>Cap\<close>.
\<close>

theorem filteredProducts_keeps_witness:
  "filterStage sampleRuntime [hatRow, capRow] (ascii ''hA'') allTags = [hatRow]
   \<and> filterStage sampleRuntime [hatRow, capRow] [] (ascii ''Sale'') = [capRow]
   \<and> mset (filteredProducts sampleRuntime (Some [hatRow, capRow]) (ascii ''hA'') allTags
             Key_created_at False) = {#hatRow#}"
proof -
  have inc: "includes_js (ascii ''hat'') (ascii ''ha'')" "\<not> includes_js (ascii ''cap'') (ascii ''ha'')"
    by (simp_all add: includes_js_def ascii_def sublist_Cons_right)
  have nb: "\<not> list_all whiteSpace (ascii ''hA'')"
    by (simp add: whiteSpace_def ascii_def)
  have tags: "productTags hatRow \<noteq> ascii ''Sale''" "productTags capRow = ascii ''Sale''"
    "ascii ''Sale'' \<noteq> allTags"
    by (simp_all add: hatRow_def capRow_def newRow_def hat_def ascii_def allTags_def)
  have names: "productName hatRow = ascii ''Hat''" "productName capRow = ascii ''Cap''"
    by (simp_all add: hatRow_def capRow_def newRow_def hat_def)
  note th = filteredProducts_keeps [of sampleRuntime "[hatRow, capRow]" "ascii ''hA''" allTags
      Key_created_at False]
  from th have a: "filterStage sampleRuntime [hatRow, capRow] (ascii ''hA'') allTags = [hatRow]"
    by (simp add: nb names sampleRuntime_def sample_names inc)
  with th have c: "mset (filteredProducts sampleRuntime (Some [hatRow, capRow]) (ascii ''hA'') allTags
             Key_created_at False) = {#hatRow#}"
    by simp
  note th2 = filteredProducts_keeps [of sampleRuntime "[hatRow, capRow]" "[]" "ascii ''Sale''"
      Key_created_at False]
  from th2 have b: "filterStage sampleRuntime [hatRow, capRow] [] (ascii ''Sale'') = [capRow]"
    by (simp add: tags)
  from a b c show ?thesis by simp
qed

text \<open>
  With the key \<open>qty\<close> both values compared are \<open>undefined\<close>, for any two products.
\<close>

lemma compareFn_qty: "compareFn rt Key_qty sortAsc a b = 0"
  by (simp add: compareFn_def sortValue_def getProperty_def properties_def)

lemma insert_by_ties: "(\<And>y. cmp x y = 0) \<Longrightarrow> insert_by cmp x ys = x # ys"
  by (cases ys) simp_all

lemma sort_by_ties: "(\<And>x y. cmp x y = 0) \<Longrightarrow> sort_by cmp xs = xs"
  by (induction xs) (simp_all add: sort_by_def insert_by_ties)

lemma filteredProducts_qty:
  "filteredProducts rt (Some ps) searchTerm filterCategory Key_qty sortAsc
     = filterStage rt ps searchTerm filterCategory"
  by (cases ps) (simp_all add: filteredProducts_def sort_by_ties compareFn_qty filterStage_def)

text \<open>
  Claim C3, at two products. Sorted by quantity, ascending, the list view shows the
  product with five in stock before the product with three: the comparison reads the
  property \<open>qty\<close>, which a product row does not have (its quantity is
  \<open>inventoryQuantity\<close>), so every comparison is a tie and the order is the fetched one.
\<close>

theorem sort_by_quantity_keeps_order:
  "filteredProducts sampleRuntime (Some [hatRow, capRow]) [] allTags Key_qty True
     = [hatRow, capRow]
   \<and> map inventoryQuantity
        (filteredProducts sampleRuntime (Some [hatRow, capRow]) [] allTags Key_qty True)
     = [5, 3]"
proof -
  have "filterStage sampleRuntime [hatRow, capRow] [] allTags = [hatRow, capRow]"
    by (simp add: filterStage_filter)
  then have "filteredProducts sampleRuntime (Some [hatRow, capRow]) [] allTags Key_qty True
     = [hatRow, capRow]"
    by (simp add: filteredProducts_qty)
  then show ?thesis
    by (simp add: hatRow_def capRow_def newRow_def hat_def)
qed

text \<open>
  The sort itself, for the comparisons that are consistent orderings: by identifier,
  by the key \<open>qty\<close> (all ties), and by creation time when every creation time parses.
  Elements that the comparison function ties keep their order; when the comparison is
  a total preorder on the elements, the result is ordered by it. So the list is
  ordered by identifier, by code units, in the direction chosen; it is ordered by
  creation time when every creation time parses; and products with the same sort value
  stay in the order of the fetched collection. Nothing is said of the order when a
  creation time does not parse.
\<close>

lemma set_insert_by: "set (insert_by cmp x xs) = insert x (set xs)"
  by (induction xs) auto

lemma filter_insert_by:
  "(\<And>y. y \<in> set ys \<Longrightarrow> P x \<Longrightarrow> P y \<Longrightarrow> cmp x y \<le> 0) \<Longrightarrow>
     filter P (insert_by cmp x ys) = (if P x then x # filter P ys else filter P ys)"
  by (induction ys) auto

lemma sort_by_stable:
  assumes "\<And>a b. P a \<Longrightarrow> P b \<Longrightarrow> cmp a b \<le> 0"
  shows "filter P (sort_by cmp xs) = filter P xs"
proof (induction xs)
  case Nil
  then show ?case by (simp add: sort_by_def)
next
  case (Cons x xs)
  have "filter P (insert_by cmp x (sort_by cmp xs))
      = (if P x then x # filter P (sort_by cmp xs) else filter P (sort_by cmp xs))"
    by (rule filter_insert_by) (rule assms)
  with Cons show ?case by (simp add: sort_by_def)
qed

lemma sorted_insert_by:
  assumes total: "\<And>a b. a \<in> A \<Longrightarrow> b \<in> A \<Longrightarrow> cmp a b \<le> 0 \<or> cmp b a \<le> 0"
    and trans: "\<And>a b c. a \<in> A \<Longrightarrow> b \<in> A \<Longrightarrow> c \<in> A \<Longrightarrow>
                  cmp a b \<le> 0 \<Longrightarrow> cmp b c \<le> 0 \<Longrightarrow> cmp a c \<le> 0"
    and x: "x \<in> A"
  shows "set ys \<subseteq> A \<Longrightarrow> sorted_wrt (\<lambda>a b. cmp a b \<le> 0) ys \<Longrightarrow>
           sorted_wrt (\<lambda>a b. cmp a b \<le> 0) (insert_by cmp x ys)"
proof (induction ys)
  case Nil
  then show ?case by simp
next
  case (Cons y ys)
  from Cons.prems have y: "y \<in> A" and ys: "set ys \<subseteq> A" by simp_all
  show ?case
  proof (cases "cmp x y \<le> 0")
    case True
    have "cmp x z \<le> 0" if "z \<in> set ys" for z
    proof -
      from that Cons.prems have "cmp y z \<le> 0" by simp
      moreover from ys that have "z \<in> A" by blast
      ultimately show ?thesis by (rule trans [OF x y _ True, rotated])
    qed
    with True Cons.prems show ?thesis by simp
  next
    case False
    with total [OF x y] have "cmp y x \<le> 0" by blast
    moreover from Cons.IH [OF ys] Cons.prems
    have "sorted_wrt (\<lambda>a b. cmp a b \<le> 0) (insert_by cmp x ys)" by simp
    moreover from Cons.prems have "\<forall>z\<in>set ys. cmp y z \<le> 0" by simp
    ultimately show ?thesis using False by (simp add: set_insert_by)
  qed
qed

lemma sorted_sort_by:
  assumes total: "\<And>a b. a \<in> A \<Longrightarrow> b \<in> A \<Longrightarrow> cmp a b \<le> 0 \<or> cmp b a \<le> 0"
    and trans: "\<And>a b c. a \<in> A \<Longrightarrow> b \<in> A \<Longrightarrow> c \<in> A \<Longrightarrow>
                  cmp a b \<le> 0 \<Longrightarrow> cmp b c \<le> 0 \<Longrightarrow> cmp a c \<le> 0"
  shows "set xs \<subseteq> A \<Longrightarrow> sorted_wrt (\<lambda>a b. cmp a b \<le> 0) (sort_by cmp xs)"
proof (induction xs)
  case Nil
  then show ?case by (simp add: sort_by_def)
next
  case (Cons x xs)
  then have xA: "x \<in> A" and sA: "set (sort_by cmp xs) \<subseteq> A"
    and so: "sorted_wrt (\<lambda>a b. cmp a b \<le> 0) (sort_by cmp xs)"
    by (simp_all add: set_sort_by)
  have "sorted_wrt (\<lambda>a b. cmp a b \<le> 0) (insert_by cmp x (sort_by cmp xs))"
  proof (rule sorted_insert_by [of A cmp x "sort_by cmp xs"])
    show "cmp a b \<le> 0 \<or> cmp b a \<le> 0" if "a \<in> A" "b \<in> A" for a b
      using that by (rule total)
    show "cmp a c \<le> 0"
      if "a \<in> A" "b \<in> A" "c \<in> A" "cmp a b \<le> 0" "cmp b c \<le> 0" for a b c
      using that by (rule trans)
  qed (fact xA sA so)+
  then show ?case by (simp add: sort_by_def)
qed

lemma sortValue_id: "sortValue rt Key_id a = Str (id' a)"
  by (simp add: sortValue_def getProperty_def properties_def)

lemma compareFn_id:
  "(compareFn rt Key_id True a b \<le> 0) = (id' a \<le> id' b)"
  "(compareFn rt Key_id False a b \<le> 0) = (id' b \<le> id' a)"
  by (auto simp: compareFn_def sortValue_id Let_def)

lemma sort_by_id_sorted:
  "sorted_wrt (\<lambda>a b. id' a \<le> id' b) (sort_by (compareFn rt Key_id True) xs)"
  "sorted_wrt (\<lambda>a b. id' b \<le> id' a) (sort_by (compareFn rt Key_id False) xs)"
proof -
  have "sorted_wrt (\<lambda>a b. compareFn rt Key_id True a b \<le> 0) (sort_by (compareFn rt Key_id True) xs)"
  proof (rule sorted_sort_by [of UNIV, OF _ _ subset_UNIV])
    show "compareFn rt Key_id True a b \<le> 0 \<or> compareFn rt Key_id True b a \<le> 0" for a b
      by (auto simp: compareFn_id)
    show "compareFn rt Key_id True a c \<le> 0"
      if "compareFn rt Key_id True a b \<le> 0" "compareFn rt Key_id True b c \<le> 0" for a b c
      using that by (auto simp: compareFn_id)
  qed
  then show "sorted_wrt (\<lambda>a b. id' a \<le> id' b) (sort_by (compareFn rt Key_id True) xs)"
    by (simp only: compareFn_id)
  have "sorted_wrt (\<lambda>a b. compareFn rt Key_id False a b \<le> 0) (sort_by (compareFn rt Key_id False) xs)"
  proof (rule sorted_sort_by [of UNIV, OF _ _ subset_UNIV])
    show "compareFn rt Key_id False a b \<le> 0 \<or> compareFn rt Key_id False b a \<le> 0" for a b
      by (auto simp: compareFn_id)
    show "compareFn rt Key_id False a c \<le> 0"
      if "compareFn rt Key_id False a b \<le> 0" "compareFn rt Key_id False b c \<le> 0" for a b c
      using that by (auto simp: compareFn_id)
  qed
  then show "sorted_wrt (\<lambda>a b. id' b \<le> id' a) (sort_by (compareFn rt Key_id False) xs)"
    by (simp only: compareFn_id)
qed

lemma filteredProducts_sorted_by_id:
  "sorted_wrt (\<lambda>a b. id' a \<le> id' b)
     (filteredProducts rt products searchTerm filterCategory Key_id True)"
  "sorted_wrt (\<lambda>a b. id' b \<le> id' a)
     (filteredProducts rt products searchTerm filterCategory Key_id False)"
  by (simp_all add: filteredProducts_def sort_by_id_sorted split: option.splits)

lemma compareFn_created_at:
  assumes "getTime rt (created_at a) = Some x" "getTime rt (created_at b) = Some y"
  shows "(compareFn rt Key_created_at True a b \<le> 0) = (x \<le> y)"
    and "(compareFn rt Key_created_at False a b \<le> 0) = (y \<le> x)"
  using assms by (auto simp: compareFn_def sortValue_def Let_def)

lemma js_less_irrefl: "\<not> js_less v v"
  by (cases v) simp_all

lemma compareFn_tie: "sortValue rt sortKey a = sortValue rt sortKey b \<Longrightarrow>
    compareFn rt sortKey sortAsc a b = 0"
  by (simp add: compareFn_def Let_def js_less_irrefl)

lemma filteredProducts_stable:
  assumes "sortKey = Key_created_at \<longrightarrow> (\<forall>p\<in>set ps. getTime rt (created_at p) \<noteq> None)"
  shows "filter (\<lambda>p. sortValue rt sortKey p = v)
           (filteredProducts rt (Some ps) searchTerm filterCategory sortKey sortAsc)
         = filter (\<lambda>p. sortValue rt sortKey p = v)
             (filterStage rt ps searchTerm filterCategory)"
proof (cases ps)
  case Nil
  then show ?thesis by (simp add: filteredProducts_def filterStage_def)
next
  case (Cons p ps')
  have "filter (\<lambda>p. sortValue rt sortKey p = v)
          (sort_by (compareFn rt sortKey sortAsc) (filterStage rt ps searchTerm filterCategory))
      = filter (\<lambda>p. sortValue rt sortKey p = v) (filterStage rt ps searchTerm filterCategory)"
    by (rule sort_by_stable) (simp add: compareFn_tie)
  with Cons show ?thesis by (simp add: filteredProducts_def)
qed

lemma set_filterStage: "set (filterStage rt ps searchTerm filterCategory) \<subseteq> set ps"
  by (auto simp: filterStage_filter)

lemma filteredProducts_sorted_by_time:
  assumes "\<forall>p\<in>set ps. getTime rt (created_at p) \<noteq> None"
  shows "sorted_wrt (\<lambda>a b. the (getTime rt (created_at a)) \<le> the (getTime rt (created_at b)))
           (filteredProducts rt (Some ps) searchTerm filterCategory Key_created_at True)"
    and "sorted_wrt (\<lambda>a b. the (getTime rt (created_at b)) \<le> the (getTime rt (created_at a)))
           (filteredProducts rt (Some ps) searchTerm filterCategory Key_created_at False)"
proof -
  define A :: "Product set" where "A = {p. getTime rt (created_at p) \<noteq> None}"
  define t :: "Product \<Rightarrow> real" where "t = (\<lambda>p. the (getTime rt (created_at p)))"
  define fs where "fs = filterStage rt ps searchTerm filterCategory"
  have le: "(compareFn rt Key_created_at True a b \<le> 0) = (t a \<le> t b)"
    "(compareFn rt Key_created_at False a b \<le> 0) = (t b \<le> t a)"
    if "a \<in> A" "b \<in> A" for a b
  proof -
    from that obtain x y where "getTime rt (created_at a) = Some x"
      "getTime rt (created_at b) = Some y"
      by (auto simp: A_def)
    then show "(compareFn rt Key_created_at True a b \<le> 0) = (t a \<le> t b)"
      "(compareFn rt Key_created_at False a b \<le> 0) = (t b \<le> t a)"
      by (simp_all add: compareFn_created_at t_def)
  qed
  have sub: "set fs \<subseteq> A"
    using assms set_filterStage [of rt ps searchTerm filterCategory]
    by (auto simp: A_def fs_def)
  have up: "sorted_wrt (\<lambda>a b. compareFn rt Key_created_at True a b \<le> 0)
      (sort_by (compareFn rt Key_created_at True) fs)"
  proof (rule sorted_sort_by [of A, OF _ _ sub])
    fix a b assume "a \<in> A" "b \<in> A"
    then show "compareFn rt Key_created_at True a b \<le> 0 \<or> compareFn rt Key_created_at True b a \<le> 0"
      by (auto simp: le)
  next
    fix a b c assume "a \<in> A" "b \<in> A" "c \<in> A"
      "compareFn rt Key_created_at True a b \<le> 0" "compareFn rt Key_created_at True b c \<le> 0"
    then show "compareFn rt Key_created_at True a c \<le> 0"
      by (auto simp: le)
  qed
  have down: "sorted_wrt (\<lambda>a b. compareFn rt Key_created_at False a b \<le> 0)
      (sort_by (compareFn rt Key_created_at False) fs)"
  proof (rule sorted_sort_by [of A, OF _ _ sub])
    fix a b assume "a \<in> A" "b \<in> A"
    then show "compareFn rt Key_created_at False a b \<le> 0 \<or> compareFn rt Key_created_at False b a \<le> 0"
      by (auto simp: le)
  next
    fix a b c assume "a \<in> A" "b \<in> A" "c \<in> A"
      "compareFn rt Key_created_at False a b \<le> 0" "compareFn rt Key_created_at False b c \<le> 0"
    then show "compareFn rt Key_created_at False a c \<le> 0"
      by (auto simp: le)
  qed
  have mem: "set (sort_by cmp fs) \<subseteq> A" for cmp
    using sub by (simp add: set_sort_by)
  have "sorted_wrt (\<lambda>a b. t a \<le> t b) (sort_by (compareFn rt Key_created_at True) fs)"
  proof (rule sorted_wrt_mono_rel [OF _ up])
    fix a b
    assume "a \<in> set (sort_by (compareFn rt Key_created_at True) fs)"
      "b \<in> set (sort_by (compareFn rt Key_created_at True) fs)"
      "compareFn rt Key_created_at True a b \<le> 0"
    with mem [of "compareFn rt Key_created_at True"] have "a \<in> A" "b \<in> A"
      "compareFn rt Key_created_at True a b \<le> 0" by auto
    then show "t a \<le> t b" by (simp only: le)
  qed
  moreover have "sorted_wrt (\<lambda>a b. t b \<le> t a) (sort_by (compareFn rt Key_created_at False) fs)"
  proof (rule sorted_wrt_mono_rel [OF _ down])
    fix a b
    assume "a \<in> set (sort_by (compareFn rt Key_created_at False) fs)"
      "b \<in> set (sort_by (compareFn rt Key_created_at False) fs)"
      "compareFn rt Key_created_at False a b \<le> 0"
    with mem [of "compareFn rt Key_created_at False"] have "a \<in> A" "b \<in> A"
      "compareFn rt Key_created_at False a b \<le> 0" by auto
    then show "t b \<le> t a" by (simp only: le)
  qed
  ultimately show "sorted_wrt (\<lambda>a b. the (getTime rt (created_at a)) \<le> the (getTime rt (created_at b)))
           (filteredProducts rt (Some ps) searchTerm filterCategory Key_created_at True)"
    and "sorted_wrt (\<lambda>a b. the (getTime rt (created_at b)) \<le> the (getTime rt (created_at a)))
           (filteredProducts rt (Some ps) searchTerm filterCategory Key_created_at False)"
    by (simp_all add: filteredProducts_def t_def fs_def)
qed

end
